theory Spec2Isabelle
  imports Main
begin

section \<open>Data model of \<open>milvus_rag.py\<close>\<close>

text \<open>
  The program is a command-line manager (class \<open>MilvusRAGManager\<close>) that keeps a Milvus
  collection of embedded PDF chunks in step with files on disk. Its collaborators (the
  PDF loaders, the text splitter, the embedding model, the language model and the Milvus
  server) are libraries; the theory gives each a small executable model and keeps what it
  cannot compute (page texts, chunk boundaries, similarity, generated answers) as fields of
  a \<open>world\<close> record that the operations only read.

  Exceptions are values: an operation returns a result (\<open>Return\<close> or \<open>Raise\<close>) together
  with the state it leaves behind, since what was written to the database before an
  exception stays written.
\<close>

datatype error =
    FileNotFoundError string
  | ValueError string
  | KeyError string
  | SchemaNotReadyException string
  | CollectionNotExistException string
  | MilvusException string

datatype 'a result = Return 'a | Raise error

text \<open>
  The JSON configuration is a dictionary read with \<open>config[key]\<close> (KeyError when the key
  is missing) and \<open>config.get(key, default)\<close>. Each key the program reads is an optional
  field. The port is kept in its textual form, so Python's \<open>str(port)\<close> is the identity.
\<close>

record configuration =
  docker_host :: "string option"
  docker_port :: "string option"
  collection_name :: "string option"
  embedding_model :: "string option"
  chunk_size :: "int option"
  chunk_overlap :: "int option"
  file_type :: "string option"

text \<open>What \<open>open(config_path)\<close> followed by \<open>json.load\<close> can meet.\<close>

datatype config_file = NoSuchFile | InvalidJSON string | JSON configuration

text \<open>
  A langchain \<open>Document\<close>: the text and the metadata the PDF loader and the splitter
  attach (\<open>source\<close>, \<open>page\<close>, and \<open>start_index\<close> once split).
\<close>

record document =
  page_content :: string
  meta_source :: string
  meta_page :: nat
  meta_start_index :: "nat option"

text \<open>A row of the Milvus collection: the stored document under its primary key.\<close>

record entry =
  pk :: nat
  doc :: document

abbreviation source :: "entry \<Rightarrow> string" where
  "source e \<equiv> meta_source (doc e)"

text \<open>
  The Milvus server: the rows of each collection by name, and the next primary key the
  server assigns (the collections are created with auto-generated keys).
\<close>

record milvus =
  collections :: "string \<rightharpoonup> entry list"
  next_pk :: nat

record search_params =
  metric :: string
  offset :: nat
  limit :: nat

record index_params =
  index_type :: string
  metric_type :: string
  nlist :: nat

record connection_args =
  host :: string
  port :: string

text \<open>
  The langchain \<open>Milvus\<close> vector store object held in \<open>self.vector_db\<close>: the collection
  it is bound to and the parameters it was built with.
\<close>

record vector_store =
  vs_connection_args :: connection_args
  vs_collection_name :: string
  vs_search_params :: "search_params option"
  vs_index_params :: "index_params option"

record splitter =
  sp_chunk_size :: int
  sp_chunk_overlap :: int

text \<open>One constructor per \<open>print\<close> statement of the class.\<close>

datatype message =
    MsgConnected string string
  | MsgServerVersion string
  | MsgInserting string
  | MsgInserted nat
  | MsgNoDocumentsFound string
  | MsgDeletedPk nat
  | MsgDeleted nat string
  | MsgUpdating string
  | MsgDropped string
  | MsgNotExist string
  | MsgLoading string
  | MsgLoaded nat

text \<open>
  The collaborators as data. \<open>pdf_pages\<close> is what \<open>PyPDFLoader(path).load()\<close> reads (one
  text per page), \<open>dir_pdfs\<close> the PDF files \<open>PyPDFDirectoryLoader\<close> finds under a
  directory, \<open>split_text\<close> the chunks (text and start index) the recursive splitter cuts
  a text into for a chunk size and overlap, \<open>similarity\<close> the score of a stored text for
  a query (embedding and metric together), \<open>default_k\<close> the number of matches
  \<open>similarity_search\<close> returns when the caller passes none (the call in
  \<open>query_documents\<close> passes none; the library's signature is
  \<open>similarity_search(query, k=4, ...)\<close>), \<open>generate\<close> the language model's answer to a
  question given the chat history and the retrieved documents, and \<open>condense\<close> the
  stand-alone question the chain derives from a question and a non-empty history.
  \<open>other_filter\<close> is what the server makes of a filter text that is not the
  comparison of \<open>source\<close> with a literal free of quotes and backslashes: the rows it
  selects, or nothing when it rejects the text.
\<close>

record world =
  config_files :: "string \<Rightarrow> config_file"
  isfile :: "string \<Rightarrow> bool"
  isdir :: "string \<Rightarrow> bool"
  pdf_pages :: "string \<Rightarrow> string list"
  dir_pdfs :: "string \<Rightarrow> string list"
  split_text :: "int \<Rightarrow> int \<Rightarrow> string \<Rightarrow> (string \<times> nat) list"
  similarity :: "string \<Rightarrow> string \<Rightarrow> int"
  default_k :: nat
  generate :: "string \<Rightarrow> (string \<times> string) list \<Rightarrow> document list \<Rightarrow> string"
  condense :: "string \<Rightarrow> (string \<times> string) list \<Rightarrow> string"
  server_version :: string
  other_filter :: "string \<Rightarrow> (entry \<Rightarrow> bool) option"

text \<open>
  The manager after \<open>__init__\<close> has returned (\<open>config\<close>, \<open>embeddings\<close>,
  \<open>text_splitter\<close>, \<open>vector_db\<close>, \<open>collection\<close> are the attributes of \<open>self\<close>; the
  language model object carries no data the program reads), with the database it is
  connected to and the lines printed so far. \<open>collection\<close> is a pymilvus \<open>Collection\<close>
  handle, which is identified by the collection's name.
\<close>

record state =
  config :: configuration
  embeddings :: string
  text_splitter :: splitter
  vector_db :: "vector_store option"
  collection :: "string option"
  db :: milvus
  out :: "message list"

definition print :: "message \<Rightarrow> state \<Rightarrow> state" where
  "print m s = s\<lparr>out := out s @ [m]\<rparr>"

section \<open>The Milvus server and the libraries\<close>

definition has_collection :: "milvus \<Rightarrow> string \<Rightarrow> bool" where
  "has_collection d n = (collections d n \<noteq> None)"

definition drop_collection_db :: "string \<Rightarrow> milvus \<Rightarrow> milvus" where
  "drop_collection_db n d = d\<lparr>collections := (collections d)(n := None)\<rparr>"

text \<open>
  \<open>Collection(name)\<close> with no schema: pymilvus returns a handle when the server has the
  collection and raises \<open>SchemaNotReadyException\<close> when it has not.
\<close>

definition Collection :: "milvus \<Rightarrow> string \<Rightarrow> string result" where
  "Collection d n = (if has_collection d n then Return n else Raise (SchemaNotReadyException n))"

text \<open>
  The filter text of \<open>delete_documents\<close> and \<open>_check_file_exists\<close>,
  \<open>f"source == '{file_path}'"\<close>: the path is pasted between single quotes as it is.
\<close>

definition source_expr :: "string \<Rightarrow> string" where
  "source_expr file_path = ''source == '' @ [CHR 0x27] @ file_path @ [CHR 0x27]"

text \<open>
  How the server reads a filter text. A text that compares \<open>source\<close> with one literal
  holding neither a single quote nor a backslash selects the rows whose source is that
  literal. A path with a quote or a backslash ends the literal early or escapes in it, so
  the pasted text is then some other expression or none at all; what the server does
  with it is \<open>other_filter\<close> of the world.
\<close>

definition plain :: "string \<Rightarrow> bool" where
  "plain p = (CHR 0x27 \<notin> set p \<and> CHR 0x5C \<notin> set p)"

definition literal_of :: "string \<Rightarrow> string option" where
  "literal_of x =
     (let pre = ''source == '' @ [CHR 0x27]; body = drop (length pre) x
      in if take (length pre) x = pre \<and> body \<noteq> [] \<and> last body = CHR 0x27 \<and> plain (butlast body)
         then Some (butlast body) else None)"

definition read_filter :: "world \<Rightarrow> string \<Rightarrow> (entry \<Rightarrow> bool) option" where
  "read_filter w x =
     (case literal_of x of
        Some p \<Rightarrow> Some (\<lambda>e. source e = p)
      | None \<Rightarrow> other_filter w x)"

text \<open>
  \<open>collection.query(expr, output_fields=["pk", "source"])\<close>: the key and the source of
  every selected row, in storage order; an error when the server rejects the text.
\<close>

definition collection_query :: "world \<Rightarrow> milvus \<Rightarrow> string \<Rightarrow> string \<Rightarrow> (nat \<times> string) list result" where
  "collection_query w d c x =
     (case collections d c of
        None \<Rightarrow> Raise (CollectionNotExistException c)
      | Some rows \<Rightarrow>
          (case read_filter w x of
             None \<Rightarrow> Raise (MilvusException x)
           | Some sel \<Rightarrow> Return (map (\<lambda>e. (pk e, source e)) (filter sel rows))))"

text \<open>
  \<open>collection.delete(f"pk in [{pk}]")\<close>: the rows under that key are removed. The only
  variable part of this text is an integer, so the deletion is taken by its key.
\<close>

definition collection_delete :: "string \<Rightarrow> nat \<Rightarrow> milvus \<Rightarrow> milvus" where
  "collection_delete c k d =
     (case collections d c of
        None \<Rightarrow> d
      | Some rows \<Rightarrow> d\<lparr>collections := (collections d)(c \<mapsto> filter (\<lambda>e. pk e \<noteq> k) rows)\<rparr>)"

text \<open>
  \<open>Milvus.from_documents\<close>: builds a vector store bound to the collection and adds the
  documents. With no document there is nothing to embed and the store returns before it
  creates anything; otherwise the collection is created when absent and each document
  is appended under a fresh key.
\<close>

definition add_documents :: "document list \<Rightarrow> string \<Rightarrow> milvus \<Rightarrow> milvus" where
  "add_documents docs n d =
     (if docs = [] then d
      else d\<lparr>collections := (collections d)(n \<mapsto>
                (case collections d n of None \<Rightarrow> [] | Some rows \<Rightarrow> rows) @
                map (\<lambda>(k, x). \<lparr>pk = k, doc = x\<rparr>) (enumerate (next_pk d) docs)),
             next_pk := next_pk d + length docs\<rparr>)"

definition from_documents ::
  "document list \<Rightarrow> connection_args \<Rightarrow> string \<Rightarrow> search_params \<Rightarrow> index_params \<Rightarrow> milvus
     \<Rightarrow> vector_store \<times> milvus" where
  "from_documents docs args n sp ip d =
     (\<lparr>vs_connection_args = args, vs_collection_name = n,
       vs_search_params = Some sp, vs_index_params = Some ip\<rparr>,
      add_documents docs n d)"

text \<open>
  \<open>vector_db.similarity_search(query)\<close>: the best \<open>default_k\<close> rows by similarity to the
  query, as documents (text and metadata, no score); no row when the store has no
  collection to search.
\<close>

definition similarity_search :: "world \<Rightarrow> milvus \<Rightarrow> vector_store \<Rightarrow> string \<Rightarrow> document list" where
  "similarity_search w d vs q =
     (case collections d (vs_collection_name vs) of
        None \<Rightarrow> []
      | Some rows \<Rightarrow>
          map doc (take (default_k w)
            (sort_key (\<lambda>e. - similarity w q (page_content (doc e))) rows)))"

text \<open>
  One call of a \<open>ConversationalRetrievalChain\<close> whose memory holds the turns \<open>h\<close>: the
  question is condensed with the history when there is one, the retriever searches for
  it, the language model answers from the question, the history and the documents, and
  the memory saves the new turn after the earlier ones.
\<close>

definition run_chain ::
  "world \<Rightarrow> milvus \<Rightarrow> vector_store \<Rightarrow> (string \<times> string) list \<Rightarrow> string
     \<Rightarrow> string \<times> (string \<times> string) list" where
  "run_chain w d vs h q =
     (let q' = (if h = [] then q else condense w q h);
          docs = similarity_search w d vs q';
          a = generate w q h docs
      in (a, h @ [(q, a)]))"

text \<open>\<open>str.lower\<close> on ASCII text.\<close>

definition lower_char :: "char \<Rightarrow> char" where
  "lower_char c =
     (let n = (of_char c :: nat) in if 65 \<le> n \<and> n \<le> 90 then char_of (n + 32) else c)"

definition lower :: "string \<Rightarrow> string" where
  "lower s = map lower_char s"

text \<open>
  \<open>PyPDFLoader(path).load()\<close>: one document per page, tagged with the path as given and
  the page number. \<open>PyPDFDirectoryLoader(path).load()\<close>: the same for every PDF file
  under the directory, each tagged with its own path.
\<close>

definition PyPDFLoader_load :: "world \<Rightarrow> string \<Rightarrow> document list" where
  "PyPDFLoader_load w p =
     map (\<lambda>(i, t). \<lparr>page_content = t, meta_source = p, meta_page = i, meta_start_index = None\<rparr>)
       (enumerate 0 (pdf_pages w p))"

definition PyPDFDirectoryLoader_load :: "world \<Rightarrow> string \<Rightarrow> document list" where
  "PyPDFDirectoryLoader_load w p = concat (map (PyPDFLoader_load w) (dir_pdfs w p))"

text \<open>
  \<open>text_splitter.split_documents\<close> (with \<open>add_start_index=True\<close>): every chunk keeps the
  metadata of the document it is cut from and gains its start index.
\<close>

definition split_documents :: "world \<Rightarrow> splitter \<Rightarrow> document list \<Rightarrow> document list" where
  "split_documents w sp docs =
     concat (map (\<lambda>x. map (\<lambda>(t, i). x\<lparr>page_content := t, meta_start_index := Some i\<rparr>)
                        (split_text w (sp_chunk_size sp) (sp_chunk_overlap sp) (page_content x)))
                 docs)"

section \<open>The manager\<close>

subsection \<open>Construction\<close>

definition load_config :: "world \<Rightarrow> string \<Rightarrow> configuration result" where
  "load_config w config_path =
     (case config_files w config_path of
        NoSuchFile \<Rightarrow> Raise (FileNotFoundError config_path)
      | InvalidJSON e \<Rightarrow> Raise (ValueError e)
      | JSON c \<Rightarrow> Return c)"

definition get_or :: "'a option \<Rightarrow> 'a \<Rightarrow> 'a" where
  "get_or v dflt = (case v of None \<Rightarrow> dflt | Some x \<Rightarrow> x)"

definition connect_milvus :: "world \<Rightarrow> state \<Rightarrow> unit result \<times> state" where
  "connect_milvus w s =
     (case docker_host (config s) of
        None \<Rightarrow> (Raise (KeyError ''docker_host''), s)
      | Some h \<Rightarrow>
          (case docker_port (config s) of
             None \<Rightarrow> (Raise (KeyError ''docker_port''), s)
           | Some p \<Rightarrow>
               (Return (), print (MsgServerVersion (server_version w)) (print (MsgConnected h p) s))))"

text \<open>
  \<open>_setup_components\<close>: the embedding model, the language model, the splitter (whose
  constructor refuses an overlap larger than the chunk size), then the connection. It
  fills the attributes that \<open>__init__\<close> has set to \<open>None\<close>, so it is here that the
  manager's state comes to be.
\<close>

definition setup_components :: "world \<Rightarrow> configuration \<Rightarrow> milvus \<Rightarrow> unit result \<times> state option" where
  "setup_components w c d =
     (let model_name = get_or (embedding_model c) ''all-mpnet-base-v2'';
          cs = get_or (chunk_size c) 500;
          co = get_or (chunk_overlap c) 20
      in if co > cs then (Raise (ValueError ''chunk overlap larger than chunk size''), None)
         else (case connect_milvus w
                      \<lparr>config = c, embeddings = model_name,
                       text_splitter = \<lparr>sp_chunk_size = cs, sp_chunk_overlap = co\<rparr>,
                       vector_db = None, collection = None, db = d, out = []\<rparr> of
                 (Raise e, s) \<Rightarrow> (Raise e, None)
               | (Return u, s) \<Rightarrow> (Return (), Some s)))"

text \<open>\<open>__init__\<close>: load the configuration, then set the components up.\<close>

definition init :: "world \<Rightarrow> milvus \<Rightarrow> string \<Rightarrow> unit result \<times> state option" where
  "init w d config_path =
     (case load_config w config_path of
        Raise e \<Rightarrow> (Raise e, None)
      | Return c \<Rightarrow> setup_components w c d)"

subsection \<open>Parameters\<close>

definition get_connection_args :: "state \<Rightarrow> connection_args result" where
  "get_connection_args s =
     (case docker_host (config s) of
        None \<Rightarrow> Raise (KeyError ''docker_host'')
      | Some h \<Rightarrow>
          (case docker_port (config s) of
             None \<Rightarrow> Raise (KeyError ''docker_port'')
           | Some p \<Rightarrow> Return \<lparr>host = h, port = p\<rparr>))"

definition get_search_params :: search_params where
  "get_search_params = \<lparr>metric = ''IP'', offset = 0, limit = 10\<rparr>"

definition get_index_params :: index_params where
  "get_index_params = \<lparr>index_type = ''IVF_FLAT'', metric_type = ''L2'', nlist = 128\<rparr>"

definition get_collection_name :: "state \<Rightarrow> string result" where
  "get_collection_name s =
     (case collection_name (config s) of
        None \<Rightarrow> Raise (KeyError ''collection_name'')
      | Some n \<Rightarrow> Return n)"

subsection \<open>Loading documents\<close>

definition load_documents :: "world \<Rightarrow> state \<Rightarrow> string \<Rightarrow> document list result" where
  "load_documents w s file_path =
     (let ft = lower (get_or (file_type (config s)) ''pdf'') in
      if isfile w file_path then
        (if ft = ''pdf''
         then Return (split_documents w (text_splitter s) (PyPDFLoader_load w file_path))
         else Raise (ValueError (''Unsupported file type: '' @ ft)))
      else if isdir w file_path then
        (if ft = ''pdf''
         then Return (split_documents w (text_splitter s) (PyPDFDirectoryLoader_load w file_path))
         else Raise (ValueError (''Unsupported file type for directory: '' @ ft)))
      else Raise (FileNotFoundError file_path))"

subsection \<open>Insert, delete, update\<close>

text \<open>
  The arguments of \<open>Milvus.from_documents\<close> are evaluated in the order written, so a
  missing host or port is met before a missing collection name, and all of them after
  the documents were loaded.
\<close>

definition store_documents :: "document list \<Rightarrow> state \<Rightarrow> unit result \<times> state" where
  "store_documents docs s =
     (case get_connection_args s of
        Raise e \<Rightarrow> (Raise e, s)
      | Return args \<Rightarrow>
          (case get_collection_name s of
             Raise e \<Rightarrow> (Raise e, s)
           | Return n \<Rightarrow>
               (let (vs, d) = from_documents docs args n get_search_params get_index_params (db s)
                in (Return (), s\<lparr>vector_db := Some vs, db := d\<rparr>))))"

definition insert_documents :: "world \<Rightarrow> state \<Rightarrow> string \<Rightarrow> unit result \<times> state" where
  "insert_documents w s file_path =
     (let s1 = print (MsgInserting file_path) s in
      case load_documents w s1 file_path of
        Raise e \<Rightarrow> (Raise e, s1)
      | Return docs \<Rightarrow>
          (case store_documents docs s1 of
             (Raise e, s2) \<Rightarrow> (Raise e, s2)
           | (Return u, s2) \<Rightarrow> (Return (), print (MsgInserted (length docs)) s2)))"

text \<open>
  \<open>if not self.collection: self.collection = Collection(self.config['collection_name'])\<close>,
  the first statement of \<open>delete_documents\<close>, \<open>_check_file_exists\<close> and
  \<open>get_collection_stats\<close>.
\<close>

definition ensure_handle :: "state \<Rightarrow> string result \<times> state" where
  "ensure_handle s =
     (case collection s of
        Some c \<Rightarrow> (Return c, s)
      | None \<Rightarrow>
          (case get_collection_name s of
             Raise e \<Rightarrow> (Raise e, s)
           | Return n \<Rightarrow>
               (case Collection (db s) n of
                  Raise e \<Rightarrow> (Raise e, s)
                | Return c \<Rightarrow> (Return c, s\<lparr>collection := Some c\<rparr>))))"

text \<open>The loop of \<open>delete_documents\<close>: one \<open>delete\<close> call and one printed line per row found.\<close>

fun delete_each :: "string \<Rightarrow> (nat \<times> string) list \<Rightarrow> state \<Rightarrow> state" where
  "delete_each c [] s = s"
| "delete_each c (r # res) s =
     delete_each c res
       (print (MsgDeletedPk (fst r)) (s\<lparr>db := collection_delete c (fst r) (db s)\<rparr>))"

definition delete_documents :: "world \<Rightarrow> state \<Rightarrow> string \<Rightarrow> unit result \<times> state" where
  "delete_documents w s file_path =
     (case ensure_handle s of
        (Raise e, s1) \<Rightarrow> (Raise e, s1)
      | (Return c, s1) \<Rightarrow>
          (case collection_query w (db s1) c (source_expr file_path) of
             Raise e \<Rightarrow> (Raise e, s1)
           | Return res \<Rightarrow>
               if res = [] then (Return (), print (MsgNoDocumentsFound file_path) s1)
               else (Return (), print (MsgDeleted (length res) file_path) (delete_each c res s1))))"

definition check_file_exists :: "world \<Rightarrow> state \<Rightarrow> string \<Rightarrow> bool result \<times> state" where
  "check_file_exists w s file_path =
     (case ensure_handle s of
        (Raise e, s1) \<Rightarrow> (Raise e, s1)
      | (Return c, s1) \<Rightarrow>
          (case collection_query w (db s1) c (source_expr file_path) of
             Raise e \<Rightarrow> (Raise e, s1)
           | Return res \<Rightarrow> (Return (length res > 0), s1)))"

definition update_documents :: "world \<Rightarrow> state \<Rightarrow> string \<Rightarrow> unit result \<times> state" where
  "update_documents w s file_path =
     (let s1 = print (MsgUpdating file_path) s in
      case check_file_exists w s1 file_path of
        (Raise e, s2) \<Rightarrow> (Raise e, s2)
      | (Return found, s2) \<Rightarrow>
          if found then
            (case delete_documents w s2 file_path of
               (Raise e, s3) \<Rightarrow> (Raise e, s3)
             | (Return u, s3) \<Rightarrow> insert_documents w s3 file_path)
          else insert_documents w s2 file_path)"

subsection \<open>Query\<close>

datatype answer = Answer string | Documents "document list"

text \<open>
  The vector store \<open>query_documents\<close> builds when it has none: bound to the configured
  collection, with no search or index parameters passed.
\<close>

definition ensure_vector_db :: "state \<Rightarrow> vector_store result \<times> state" where
  "ensure_vector_db s =
     (case vector_db s of
        Some vs \<Rightarrow> (Return vs, s)
      | None \<Rightarrow>
          (case get_connection_args s of
             Raise e \<Rightarrow> (Raise e, s)
           | Return args \<Rightarrow>
               (case get_collection_name s of
                  Raise e \<Rightarrow> (Raise e, s)
                | Return n \<Rightarrow>
                    (let vs = \<lparr>vs_connection_args = args, vs_collection_name = n,
                               vs_search_params = None, vs_index_params = None\<rparr>
                     in (Return vs, s\<lparr>vector_db := Some vs\<rparr>)))))"

text \<open>
  The retrieval branch of \<open>query_documents\<close>: a new, empty \<open>ConversationBufferMemory\<close>,
  a chain over it, one call of the chain. The pair is the answer and the turns the memory
  holds when the call is over; \<open>query_documents\<close> returns the answer.
\<close>

definition rag_session :: "world \<Rightarrow> milvus \<Rightarrow> vector_store \<Rightarrow> string \<Rightarrow> string \<times> (string \<times> string) list" where
  "rag_session w d vs q = (let memory = [] in run_chain w d vs memory q)"

definition query_documents :: "world \<Rightarrow> state \<Rightarrow> string \<Rightarrow> bool \<Rightarrow> answer result \<times> state" where
  "query_documents w s q use_rag =
     (case ensure_vector_db s of
        (Raise e, s1) \<Rightarrow> (Raise e, s1)
      | (Return vs, s1) \<Rightarrow>
          if use_rag then (Return (Answer (fst (rag_session w (db s1) vs q))), s1)
          else (Return (Documents (similarity_search w (db s1) vs q)), s1))"

subsection \<open>Drop and load\<close>

definition drop_collection :: "state \<Rightarrow> unit result \<times> state" where
  "drop_collection s =
     (case get_collection_name s of
        Raise e \<Rightarrow> (Raise e, s)
      | Return n \<Rightarrow>
          if has_collection (db s) n then
            (Return (),
             (print (MsgDropped n) (s\<lparr>db := drop_collection_db n (db s)\<rparr>))
               \<lparr>collection := None, vector_db := None\<rparr>)
          else (Return (), print (MsgNotExist n) s))"

definition load_collection :: "world \<Rightarrow> state \<Rightarrow> string \<Rightarrow> unit result \<times> state" where
  "load_collection w s file_path =
     (case drop_collection s of
        (Raise e, s1) \<Rightarrow> (Raise e, s1)
      | (Return u, s1) \<Rightarrow>
          (let s2 = print (MsgLoading file_path) s1 in
           case load_documents w s2 file_path of
             Raise e \<Rightarrow> (Raise e, s2)
           | Return docs \<Rightarrow>
               (case store_documents docs s2 of
                  (Raise e, s3) \<Rightarrow> (Raise e, s3)
                | (Return u, s3) \<Rightarrow>
                    (let s4 = print (MsgLoaded (length docs)) s3 in
                     case get_collection_name s4 of
                       Raise e \<Rightarrow> (Raise e, s4)
                     | Return n \<Rightarrow>
                         (case Collection (db s4) n of
                            Raise e \<Rightarrow> (Raise e, s4)
                          | Return c \<Rightarrow> (Return (), s4\<lparr>collection := Some c\<rparr>))))))"

section \<open>Observations and example data\<close>

text \<open>The number of rows of the configured collection whose source is the given path.\<close>

definition source_count :: "state \<Rightarrow> string \<Rightarrow> nat" where
  "source_count s p =
     (case collection_name (config s) of
        None \<Rightarrow> 0
      | Some n \<Rightarrow>
          (case collections (db s) n of
             None \<Rightarrow> 0
           | Some rows \<Rightarrow> length (filter (\<lambda>e. source e = p) rows)))"

text \<open>
  The keys of a collection are those the server handed out: pairwise different and below
  the next key.
\<close>

definition keys_ok :: "milvus \<Rightarrow> string \<Rightarrow> bool" where
  "keys_ok d n =
     (case collections d n of
        None \<Rightarrow> True
      | Some rows \<Rightarrow> distinct (map pk rows) \<and> list_all (\<lambda>e. pk e < next_pk d) rows)"

text \<open>
  Two paths with a single quote in them: one that closes the literal and goes on with a
  second comparison, and a file name with an apostrophe.
\<close>

definition injection_path :: string where
  "injection_path = ''x'' @ [CHR 0x27] @ '' or source != '' @ [CHR 0x27] @ ''x''"

definition quoted_path :: string where
  "quoted_path = ''it'' @ [CHR 0x27] @ ''s.pdf''"

text \<open>
  A configuration with the three required keys and no optional one, a disk with two PDF
  files and a directory, a splitter that cuts a page longer than six characters in two
  overlapping chunks, and a server that reads the text pasted for \<open>injection_path\<close>,
  \<open>source == 'x' or source != 'x'\<close>, as the disjunction it spells and rejects every
  other text that is not a comparison with a plain literal.
\<close>

definition demo_config :: configuration where
  "demo_config =
     \<lparr>docker_host = Some ''localhost'', docker_port = Some ''19530'',
      collection_name = Some ''docs'', embedding_model = None, chunk_size = None,
      chunk_overlap = None, file_type = None\<rparr>"

definition demo_world :: world where
  "demo_world =
     \<lparr>config_files = (\<lambda>p. if p = ''config.json'' then JSON demo_config
                           else if p = ''nameless.json''
                           then JSON (demo_config\<lparr>collection_name := None\<rparr>)
                           else if p = ''broken.json'' then InvalidJSON ''Expecting value''
                           else NoSuchFile),
      isfile = (\<lambda>p. p = ''a.pdf'' \<or> p = ''b.pdf''),
      isdir = (\<lambda>p. p = ''pdfs''),
      pdf_pages = (\<lambda>p. if p = ''a.pdf'' then [''alpha beta'', ''gamma'']
                        else if p = ''b.pdf'' then [''delta''] else [''omega'']),
      dir_pdfs = (\<lambda>p. if p = ''pdfs'' then [''pdfs/c.pdf''] else []),
      split_text = (\<lambda>cs co t. if length t \<le> 6 then [(t, 0)] else [(take 6 t, 0), (drop 4 t, 4)]),
      similarity = (\<lambda>q t. int (length t)),
      default_k = 4,
      generate = (\<lambda>q h docs. if h = [] then ''first turn'' else ''later turn''),
      condense = (\<lambda>q h. q),
      server_version = ''v2.3.0'',
      other_filter = (\<lambda>x. if x = source_expr injection_path
                         then Some (\<lambda>e. source e = ''x'' \<or> source e \<noteq> ''x'')
                         else None)\<rparr>"

definition demo_doc :: "string \<Rightarrow> string \<Rightarrow> document" where
  "demo_doc t p = \<lparr>page_content = t, meta_source = p, meta_page = 0, meta_start_index = Some 0\<rparr>"

definition demo_rows :: "entry list" where
  "demo_rows =
     [\<lparr>pk = 1, doc = demo_doc ''one'' ''a.pdf''\<rparr>,
      \<lparr>pk = 2, doc = demo_doc ''two'' ''gone.pdf''\<rparr>,
      \<lparr>pk = 3, doc = demo_doc ''three'' ''a.pdf''\<rparr>,
      \<lparr>pk = 4, doc = demo_doc ''four'' ''b.pdf''\<rparr>,
      \<lparr>pk = 5, doc = demo_doc ''five!'' ''gone.pdf''\<rparr>]"

definition demo_state :: "milvus \<Rightarrow> state" where
  "demo_state d =
     \<lparr>config = demo_config, embeddings = ''all-mpnet-base-v2'',
      text_splitter = \<lparr>sp_chunk_size = 500, sp_chunk_overlap = 20\<rparr>,
      vector_db = None, collection = None, db = d, out = []\<rparr>"

text \<open>A server with no collection, and one whose collection \<open>docs\<close> holds five rows.\<close>

definition empty_db :: milvus where
  "empty_db = \<lparr>collections = Map.empty, next_pk = 1\<rparr>"

definition demo_db :: milvus where
  "demo_db = \<lparr>collections = [''docs'' \<mapsto> demo_rows], next_pk = 6\<rparr>"

text \<open>A server whose collection holds a row of the file with the apostrophe.\<close>

definition quoted_db :: milvus where
  "quoted_db =
     \<lparr>collections = [''docs'' \<mapsto> [\<lparr>pk = 1, doc = demo_doc ''one'' ''a.pdf''\<rparr>,
                                 \<lparr>pk = 2, doc = demo_doc ''two'' quoted_path\<rparr>]],
      next_pk = 3\<rparr>"

section \<open>Lemmas about the operations\<close>

lemma out_delete_each:
  "out (delete_each c res s) = out s @ map (\<lambda>r. MsgDeletedPk (fst r)) res"
  by (induction res arbitrary: s) (simp_all add: print_def)

lemma collection_delete_each:
  "collection (delete_each c res s) = collection s"
  by (induction res arbitrary: s) (simp_all add: print_def)

lemma rows_delete_each:
  "collections (db s) c = Some rows \<Longrightarrow>
   collections (db (delete_each c res s)) c = Some (filter (\<lambda>e. pk e \<notin> fst ` set res) rows)"
proof (induction res arbitrary: s rows)
  case Nil
  then show ?case by simp
next
  case (Cons r res)
  let ?s = "print (MsgDeletedPk (fst r)) (s\<lparr>db := collection_delete c (fst r) (db s)\<rparr>)"
  have "collections (db ?s) c = Some (filter (\<lambda>e. pk e \<noteq> fst r) rows)"
    using Cons.prems by (simp add: print_def collection_delete_def)
  from Cons.IH[OF this]
  have "collections (db (delete_each c (r # res) s)) c =
        Some (filter (\<lambda>e. pk e \<notin> fst ` set res) (filter (\<lambda>e. pk e \<noteq> fst r) rows))"
    by simp
  also have "filter (\<lambda>e. pk e \<notin> fst ` set res) (filter (\<lambda>e. pk e \<noteq> fst r) rows)
           = filter (\<lambda>e. pk e \<notin> fst ` set (r # res)) rows"
    by (auto intro: filter_cong)
  finally show ?case .
qed

lemma others_delete_each:
  "c' \<noteq> c \<Longrightarrow> collections (db (delete_each c res s)) c' = collections (db s) c'"
  by (induction res arbitrary: s)
     (simp_all add: print_def collection_delete_def split: option.splits)

lemma next_pk_delete_each:
  "next_pk (db (delete_each c res s)) = next_pk (db s)"
  by (induction res arbitrary: s)
     (simp_all add: print_def collection_delete_def split: option.splits)

lemma fields_delete_each:
  "config (delete_each c res s) = config s \<and> vector_db (delete_each c res s) = vector_db s \<and>
   text_splitter (delete_each c res s) = text_splitter s \<and> embeddings (delete_each c res s) = embeddings s"
  by (induction res arbitrary: s) (simp_all add: print_def)

lemma filter_by_found_keys:
  assumes "distinct (map pk rows)"
  shows "filter (\<lambda>e. pk e \<notin> fst ` set (map (\<lambda>e. (pk e, source e)) (filter (\<lambda>e. source e = p) rows))) rows
       = filter (\<lambda>e. source e \<noteq> p) rows"
proof (rule filter_cong[OF refl])
  fix e assume e: "e \<in> set rows"
  have "pk e \<in> pk ` {x \<in> set rows. source x = p} \<longleftrightarrow> source e = p"
  proof
    assume "pk e \<in> pk ` {x \<in> set rows. source x = p}"
    then obtain x where x: "x \<in> set rows" "source x = p" "pk x = pk e" by auto
    from assms x(1) e x(3) have "x = e"
      by (meson distinct_map inj_onD)
    with x(2) show "source e = p" by simp
  next
    assume "source e = p" with e show "pk e \<in> pk ` {x \<in> set rows. source x = p}" by auto
  qed
  then show "(pk e \<notin> fst ` set (map (\<lambda>e. (pk e, source e)) (filter (\<lambda>e. source e = p) rows))) = (source e \<noteq> p)"
    by (simp add: image_image)
qed

lemma db_delete_each:
  "db (delete_each c res s) = fold (\<lambda>r. collection_delete c (fst r)) res (db s)"
  by (induction res arbitrary: s) (simp_all add: print_def)

lemma load_documents_cong:
  "config s' = config s \<Longrightarrow> text_splitter s' = text_splitter s \<Longrightarrow>
   load_documents w s' p = load_documents w s p"
  unfolding load_documents_def Let_def by simp

lemma load_documents_print:
  "load_documents w (print m s) p = load_documents w s p"
  by (rule load_documents_cong) (simp_all add: print_def)

lemma split_documents_source:
  "d \<in> set (split_documents w sp docs) \<Longrightarrow> \<exists>x \<in> set docs. meta_source d = meta_source x"
  by (auto simp: split_documents_def)

lemma PyPDFLoader_load_source:
  "d \<in> set (PyPDFLoader_load w p) \<Longrightarrow> meta_source d = p"
  by (auto simp: PyPDFLoader_load_def)

lemma load_documents_file_source:
  assumes "isfile w p" and "load_documents w s p = Return docs"
  shows "filter (\<lambda>d. meta_source d = p) docs = docs"
proof -
  have "docs = split_documents w (text_splitter s) (PyPDFLoader_load w p)"
    using assms by (simp add: load_documents_def Let_def split: if_splits)
  then have "\<forall>d \<in> set docs. meta_source d = p"
    using split_documents_source PyPDFLoader_load_source by fastforce
  then show ?thesis by simp
qed

lemma store_documents_ok:
  assumes "collection_name (config s) = Some n"
      and "docker_host (config s) = Some h" and "docker_port (config s) = Some pt"
  shows "store_documents docs s =
         (Return (),
          s\<lparr>vector_db := Some \<lparr>vs_connection_args = \<lparr>host = h, port = pt\<rparr>,
                               vs_collection_name = n,
                               vs_search_params = Some get_search_params,
                               vs_index_params = Some get_index_params\<rparr>,
            db := add_documents docs n (db s)\<rparr>)"
  using assms
  by (simp add: store_documents_def get_connection_args_def get_collection_name_def
      from_documents_def)

lemma store_documents_Return:
  assumes "store_documents docs s = (Return u, s')"
  shows "\<exists>n h pt. collection_name (config s) = Some n \<and> docker_host (config s) = Some h \<and>
                  docker_port (config s) = Some pt"
  using assms
  by (auto simp: store_documents_def get_connection_args_def get_collection_name_def
      split: option.splits result.splits)

lemma store_documents_Raise:
  assumes "store_documents docs s = (Raise e, s')"
  shows "s' = s"
  using assms
  by (auto simp: store_documents_def get_connection_args_def get_collection_name_def
      from_documents_def split: option.splits result.splits)

lemma insert_documents_ok:
  assumes "collection_name (config s) = Some n"
      and "docker_host (config s) = Some h" and "docker_port (config s) = Some pt"
      and "load_documents w s p = Return docs"
  shows "insert_documents w s p =
         (Return (),
          s\<lparr>vector_db := Some \<lparr>vs_connection_args = \<lparr>host = h, port = pt\<rparr>,
                               vs_collection_name = n,
                               vs_search_params = Some get_search_params,
                               vs_index_params = Some get_index_params\<rparr>,
            db := add_documents docs n (db s),
            out := out s @ [MsgInserting p, MsgInserted (length docs)]\<rparr>)"
proof -
  let ?s1 = "print (MsgInserting p) s"
  have l: "load_documents w ?s1 p = Return docs"
    using assms(4) by (simp add: load_documents_print)
  have "store_documents docs ?s1 =
         (Return (),
          ?s1\<lparr>vector_db := Some \<lparr>vs_connection_args = \<lparr>host = h, port = pt\<rparr>,
                               vs_collection_name = n,
                               vs_search_params = Some get_search_params,
                               vs_index_params = Some get_index_params\<rparr>,
            db := add_documents docs n (db ?s1)\<rparr>)"
    using assms(1-3) by (intro store_documents_ok) (simp_all add: print_def)
  with l show ?thesis
    by (simp add: insert_documents_def Let_def print_def)
qed

lemma insert_documents_load_Raise:
  assumes "load_documents w s p = Raise e"
  shows "insert_documents w s p = (Raise e, print (MsgInserting p) s)"
proof -
  have "load_documents w (print (MsgInserting p) s) p = Raise e"
    using assms by (simp add: load_documents_print)
  then show ?thesis by (simp add: insert_documents_def Let_def)
qed

lemma insert_documents_Return:
  assumes "insert_documents w s p = (Return u, s')"
  shows "\<exists>n h pt docs. collection_name (config s) = Some n \<and> docker_host (config s) = Some h \<and>
           docker_port (config s) = Some pt \<and> load_documents w s p = Return docs"
proof -
  let ?s1 = "print (MsgInserting p) s"
  obtain docs where l: "load_documents w ?s1 p = Return docs"
    using assms by (auto simp: insert_documents_def Let_def split: result.splits)
  then obtain u' s2 where "store_documents docs ?s1 = (Return u', s2)"
    using assms by (auto simp: insert_documents_def Let_def split: result.splits prod.splits)
  from store_documents_Return[OF this] l show ?thesis
    by (auto simp: print_def load_documents_print[unfolded print_def])
qed

lemma count_enumerate:
  "length (filter ((\<lambda>e. source e = p) \<circ> (\<lambda>(k, x). \<lparr>pk = k, doc = x\<rparr>)) (enumerate k docs)) =
   length (filter (\<lambda>d. meta_source d = p) docs)"
  by (induction docs arbitrary: k) simp_all

lemma source_count_add_documents:
  assumes "collection_name (config s) = Some n"
  shows "source_count (s\<lparr>db := add_documents docs n (db s)\<rparr>) p =
         source_count s p + length (filter (\<lambda>d. meta_source d = p) docs)"
  using assms
  by (simp add: source_count_def add_documents_def count_enumerate split: option.splits)

lemma literal_of_plain: "plain p \<Longrightarrow> literal_of (source_expr p) = Some p"
  by (simp add: literal_of_def source_expr_def Let_def)

lemma literal_of_not_plain: "\<not> plain p \<Longrightarrow> literal_of (source_expr p) = None"
  by (simp add: literal_of_def source_expr_def Let_def)

lemma read_filter_source_expr:
  "read_filter w (source_expr p) =
     (if plain p then Some (\<lambda>e. source e = p) else other_filter w (source_expr p))"
  by (simp add: read_filter_def literal_of_plain literal_of_not_plain)

lemma ensure_handle_ok:
  assumes "collection_name (config s) = Some n"
      and "collection s = None \<or> collection s = Some n"
      and "collections (db s) n = Some rows"
  shows "ensure_handle s = (Return n, s\<lparr>collection := Some n\<rparr>)"
  using assms
  by (auto simp: ensure_handle_def get_collection_name_def Collection_def has_collection_def)

lemma delete_documents_found:
  assumes "collection_name (config s) = Some n"
      and "collection s = None \<or> collection s = Some n"
      and "collections (db s) n = Some rows"
      and "plain p"
  shows "delete_documents w s p =
         (let res = map (\<lambda>e. (pk e, source e)) (filter (\<lambda>e. source e = p) rows);
              s1 = s\<lparr>collection := Some n\<rparr>
          in if res = [] then (Return (), print (MsgNoDocumentsFound p) s1)
             else (Return (), print (MsgDeleted (length res) p) (delete_each n res s1)))"
  using assms
  by (simp add: delete_documents_def ensure_handle_ok[OF assms(1-3)] collection_query_def Let_def
      read_filter_source_expr)

lemma check_file_exists_found:
  assumes "collection_name (config s) = Some n"
      and "collection s = None \<or> collection s = Some n"
      and "collections (db s) n = Some rows"
      and "plain p"
  shows "check_file_exists w s p =
         (Return (filter (\<lambda>e. source e = p) rows \<noteq> []), s\<lparr>collection := Some n\<rparr>)"
  using assms
  by (simp add: check_file_exists_def ensure_handle_ok[OF assms(1-3)] collection_query_def
      read_filter_source_expr)

lemma demo_state_facts:
  "collection_name (config (demo_state d)) = Some ''docs''"
  "docker_host (config (demo_state d)) = Some ''localhost''"
  "docker_port (config (demo_state d)) = Some ''19530''"
  "collection (demo_state d) = None"
  "vector_db (demo_state d) = None"
  "db (demo_state d) = d"
  "out (demo_state d) = []"
  by (simp_all add: demo_state_def demo_config_def)

lemma demo_db_facts:
  "collections demo_db ''docs'' = Some demo_rows"
  "distinct (map pk demo_rows)"
  "next_pk demo_db = 6"
  by (simp_all add: demo_db_def demo_rows_def)

lemma source_count_cong:
  "config s' = config s \<Longrightarrow> db s' = db s \<Longrightarrow> source_count s' p = source_count s p"
  by (simp add: source_count_def split: option.splits)

lemma source_count_rows:
  "collection_name (config s) = Some n \<Longrightarrow> collections (db s) n = Some rows \<Longrightarrow>
   source_count s p = length (filter (\<lambda>e. source e = p) rows)"
  by (simp add: source_count_def)

lemma delete_documents_effect:
  assumes "collection_name (config s) = Some n"
      and "collection s = None \<or> collection s = Some n"
      and "collections (db s) n = Some rows"
      and "distinct (map pk rows)"
      and "filter (\<lambda>e. source e = p) rows \<noteq> []"
      and "plain p"
  shows "fst (delete_documents w s p) = Return ()"
    and "db (snd (delete_documents w s p)) =
           fold (\<lambda>e. collection_delete n (pk e)) (filter (\<lambda>e. source e = p) rows) (db s)"
    and "collections (db (snd (delete_documents w s p))) n = Some (filter (\<lambda>e. source e \<noteq> p) rows)"
    and "out (snd (delete_documents w s p)) =
           out s @ map (\<lambda>e. MsgDeletedPk (pk e)) (filter (\<lambda>e. source e = p) rows) @
             [MsgDeleted (length (filter (\<lambda>e. source e = p) rows)) p]"
    and "config (snd (delete_documents w s p)) = config s"
    and "text_splitter (snd (delete_documents w s p)) = text_splitter s"
    and "collection (snd (delete_documents w s p)) = Some n"
    and "next_pk (db (snd (delete_documents w s p))) = next_pk (db s)"
    and "c \<noteq> n \<Longrightarrow> collections (db (snd (delete_documents w s p))) c = collections (db s) c"
proof -
  let ?found = "filter (\<lambda>e. source e = p) rows"
  let ?res = "map (\<lambda>e. (pk e, source e)) ?found"
  let ?s1 = "s\<lparr>collection := Some n\<rparr>"
  note d = delete_documents_found[OF assms(1-3) assms(6), where w = w]
  have s': "snd (delete_documents w s p) =
        print (MsgDeleted (length ?res) p) (delete_each n ?res ?s1)"
    and r: "fst (delete_documents w s p) = Return ()"
    using d assms(5) by (simp_all add: Let_def)
  have rows1: "collections (db ?s1) n = Some rows" using assms(3) by simp
  show "fst (delete_documents w s p) = Return ()" by (rule r)
  show "db (snd (delete_documents w s p)) =
             fold (\<lambda>e. collection_delete n (pk e)) ?found (db s)"
    unfolding s' by (simp add: print_def db_delete_each fold_map comp_def)
  show "collections (db (snd (delete_documents w s p))) n =
             Some (filter (\<lambda>e. source e \<noteq> p) rows)"
    unfolding s' using rows_delete_each[OF rows1, of ?res]
      filter_by_found_keys[OF assms(4), of p]
    by (simp add: print_def)
  show "out (snd (delete_documents w s p)) =
             out s @ map (\<lambda>e. MsgDeletedPk (pk e)) ?found @ [MsgDeleted (length ?found) p]"
    unfolding s' by (simp add: print_def out_delete_each comp_def)
  show "config (snd (delete_documents w s p)) = config s"
    unfolding s' by (simp add: print_def fields_delete_each)
  show "text_splitter (snd (delete_documents w s p)) = text_splitter s"
    unfolding s' by (simp add: print_def fields_delete_each)
  show "collection (snd (delete_documents w s p)) = Some n"
    unfolding s' by (simp add: print_def collection_delete_each)
  show "next_pk (db (snd (delete_documents w s p))) = next_pk (db s)"
    unfolding s' by (simp add: print_def next_pk_delete_each)
  show "c \<noteq> n \<Longrightarrow> collections (db (snd (delete_documents w s p))) c = collections (db s) c"
    unfolding s' by (simp add: print_def others_delete_each)
qed

lemma update_documents_steps:
  assumes "collection_name (config s) = Some n"
      and "collection s = None \<or> collection s = Some n"
      and "collections (db s) n = Some rows"
      and "plain p"
  shows "update_documents w s p =
         insert_documents w
           (if filter (\<lambda>e. source e = p) rows = []
            then (print (MsgUpdating p) s)\<lparr>collection := Some n\<rparr>
            else snd (delete_documents w (print (MsgUpdating p) s) p)) p"
proof -
  let ?s1 = "print (MsgUpdating p) s"
  let ?s2 = "?s1\<lparr>collection := Some n\<rparr>"
  have a: "collection_name (config ?s1) = Some n"
    "collection ?s1 = None \<or> collection ?s1 = Some n"
    "collections (db ?s1) n = Some rows"
    using assms(1-3) by (simp_all add: print_def)
  have b: "collection_name (config ?s2) = Some n"
    "collection ?s2 = None \<or> collection ?s2 = Some n"
    "collections (db ?s2) n = Some rows"
    using assms(1-3) by (simp_all add: print_def)
  have chk: "check_file_exists w ?s1 p = (Return (filter (\<lambda>e. source e = p) rows \<noteq> []), ?s2)"
    by (rule check_file_exists_found[OF a assms(4)])
  have same: "delete_documents w ?s2 p = delete_documents w ?s1 p"
    unfolding delete_documents_found[OF a assms(4)] delete_documents_found[OF b assms(4)] by simp
  have ret: "fst (delete_documents w ?s1 p) = Return ()"
    unfolding delete_documents_found[OF a assms(4)] by (simp add: Let_def)
  show ?thesis
  proof (cases "filter (\<lambda>e. source e = p) rows = []")
    case True
    then show ?thesis
      by (simp add: update_documents_def Let_def chk)
  next
    case False
    obtain r s3 where d: "delete_documents w ?s1 p = (r, s3)" by (cases "delete_documents w ?s1 p")
    with ret have "r = Return ()" by simp
    with d False show ?thesis
      by (simp add: update_documents_def Let_def chk same)
  qed
qed

subsection \<open>Primary keys\<close>

text \<open>
  The theorems about deletion ask for pairwise different keys in the collection. The
  server model keeps them so: an empty server has them, and adding documents, deleting
  rows and dropping a collection preserve them.
\<close>

lemma keys_ok_empty_db: "keys_ok empty_db n"
  by (simp add: keys_ok_def empty_db_def)

lemma keys_ok_demo_db: "keys_ok demo_db ''docs''"
  by (simp add: keys_ok_def demo_db_def demo_rows_def)

lemma pk_enumerate:
  "map pk (map (\<lambda>(k, x). \<lparr>pk = k, doc = x\<rparr>) (enumerate k docs)) = [k..<k + length docs]"
proof -
  have "pk \<circ> (\<lambda>(k, x). \<lparr>pk = k, doc = x\<rparr>) = fst"
    by (auto simp: fun_eq_iff)
  then have "map pk (map (\<lambda>(k, x). \<lparr>pk = k, doc = x\<rparr>) (enumerate k docs)) = map fst (enumerate k docs)"
    by (simp only: map_map)
  then show ?thesis by simp
qed

lemma keys_ok_add_documents:
  assumes "keys_ok d m"
  shows "keys_ok (add_documents docs n d) m"
proof (cases "docs = []")
  case True
  with assms show ?thesis by (simp add: add_documents_def)
next
  case False
  let ?new = "map (\<lambda>(k, x). \<lparr>pk = k, doc = x\<rparr>) (enumerate (next_pk d) docs)"
  have new: "map pk ?new = [next_pk d..<next_pk d + length docs]"
    by (rule pk_enumerate)
  have below: "list_all (\<lambda>e. pk e < next_pk d + length docs) ?new"
  proof -
    have "\<forall>k \<in> set (map pk ?new). k < next_pk d + length docs"
      unfolding new by simp
    then show ?thesis by (simp add: list_all_iff)
  qed
  show ?thesis
  proof (cases "m = n")
    case True
    show ?thesis
    proof (cases "collections d n")
      case None
      with False True new below show ?thesis
        by (simp add: keys_ok_def add_documents_def del: map_map)
    next
      case (Some rows)
      with assms True have r: "distinct (map pk rows)" "list_all (\<lambda>e. pk e < next_pk d) rows"
        by (simp_all add: keys_ok_def)
      from r(2) have lt: "\<forall>e \<in> set rows. pk e < next_pk d"
        by (simp add: list_all_iff)
      then have disj: "set (map pk rows) \<inter> set (map pk ?new) = {}"
        unfolding new by auto
      from lt have "list_all (\<lambda>e. pk e < next_pk d + length docs) rows"
        by (auto simp: list_all_iff)
      with False True Some r(1) new below disj show ?thesis
        by (simp add: keys_ok_def add_documents_def del: map_map)
    qed
  next
    case other: False
    from assms have "case collections d m of None \<Rightarrow> True
        | Some rows \<Rightarrow> distinct (map pk rows) \<and> list_all (\<lambda>e. pk e < next_pk d + length docs) rows"
      by (auto simp: keys_ok_def list_all_iff split: option.splits)
    with False other show ?thesis
      by (simp add: keys_ok_def add_documents_def split: option.splits)
  qed
qed

lemma keys_ok_collection_delete:
  assumes "keys_ok d m"
  shows "keys_ok (collection_delete c k d) m"
  using assms
  by (auto simp: keys_ok_def collection_delete_def list_all_iff distinct_map_filter
      split: option.splits)

lemma keys_ok_drop_collection_db:
  assumes "keys_ok d m"
  shows "keys_ok (drop_collection_db c d) m"
  using assms by (simp add: keys_ok_def drop_collection_db_def split: option.splits)

lemma keys_ok_distinct:
  "keys_ok d n \<Longrightarrow> collections d n = Some rows \<Longrightarrow> distinct (map pk rows)"
  by (simp add: keys_ok_def)

section \<open>The claims\<close>

subsection \<open>Dropping the collection\<close>

text \<open>
  Claim C3. With a collection name configured, \<open>_drop_collection\<close> never raises, and
  neither does a second call right after it. When the collection exists, the call removes
  it from the server and clears \<open>self.collection\<close> and \<open>self.vector_db\<close>; when it does
  not, the call only prints that the collection does not exist and leaves the manager and
  the database as they were. The second of two calls in a row is always of the latter
  kind.
\<close>

theorem drop_collection_idempotent:
  assumes "collection_name (config s) = Some n"
  shows "fst (drop_collection s) = Return () \<and>
         fst (drop_collection (snd (drop_collection s))) = Return () \<and>
         snd (drop_collection (snd (drop_collection s))) =
           print (MsgNotExist n) (snd (drop_collection s)) \<and>
         (if has_collection (db s) n
          then snd (drop_collection s) =
                 s\<lparr>db := drop_collection_db n (db s), out := out s @ [MsgDropped n],
                   collection := None, vector_db := None\<rparr> \<and>
               \<not> has_collection (db (snd (drop_collection s))) n
          else snd (drop_collection s) = s\<lparr>out := out s @ [MsgNotExist n]\<rparr>)"
  using assms
  by (simp add: drop_collection_def get_collection_name_def has_collection_def
      drop_collection_db_def print_def)

theorem drop_collection_idempotent_witness:
  "has_collection demo_db ''docs'' \<and>
   fst (drop_collection (demo_state demo_db)) = Return () \<and>
   fst (drop_collection (snd (drop_collection (demo_state demo_db)))) = Return () \<and>
   out (snd (drop_collection (snd (drop_collection (demo_state demo_db))))) =
     [MsgDropped ''docs'', MsgNotExist ''docs''] \<and>
   \<not> has_collection (db (snd (drop_collection (demo_state demo_db)))) ''docs''"
proof -
  have h: "has_collection (db (demo_state demo_db)) ''docs''"
    by (simp add: has_collection_def demo_state_facts demo_db_facts)
  note t = drop_collection_idempotent[OF demo_state_facts(1), of demo_db]
  from t h have s1: "snd (drop_collection (demo_state demo_db)) =
      (demo_state demo_db)\<lparr>db := drop_collection_db ''docs'' demo_db, out := [MsgDropped ''docs''],
         collection := None, vector_db := None\<rparr>"
    by (simp add: demo_state_facts)
  from t have s2: "snd (drop_collection (snd (drop_collection (demo_state demo_db)))) =
           print (MsgNotExist ''docs'') (snd (drop_collection (demo_state demo_db)))"
    by simp
  have "out (snd (drop_collection (snd (drop_collection (demo_state demo_db))))) =
     [MsgDropped ''docs'', MsgNotExist ''docs'']"
    unfolding s2 unfolding s1 by (simp add: print_def)
  with t h show ?thesis
    by (simp add: demo_state_facts drop_collection_def get_collection_name_def
        has_collection_def drop_collection_db_def print_def)
qed

subsection \<open>Deleting the rows of a file\<close>

text \<open>
  Where the program does delete by source: let the configured collection exist, with
  \<open>rows\<close> its rows under pairwise different keys, and let the path hold neither a
  single quote nor a backslash. When no row has the path as its source,
  \<open>delete_documents\<close> returns normally, prints that no document was found and changes
  nothing in the database (it only keeps the handle it opened). Otherwise it returns
  normally after one \<open>delete\<close> call by primary key per matching row, in storage order;
  exactly the matching rows are gone, one line is printed per deleted key, and the last
  line reports the number of matching rows.
\<close>

lemma delete_documents_plain:
  assumes "collection_name (config s) = Some n"
      and "collection s = None \<or> collection s = Some n"
      and "collections (db s) n = Some rows"
      and "distinct (map pk rows)"
      and "plain p"
  shows "fst (delete_documents w s p) = Return () \<and>
         (if filter (\<lambda>e. source e = p) rows = []
          then snd (delete_documents w s p) =
                 s\<lparr>collection := Some n, out := out s @ [MsgNoDocumentsFound p]\<rparr>
          else db (snd (delete_documents w s p)) =
                 fold (\<lambda>e. collection_delete n (pk e))
                   (filter (\<lambda>e. source e = p) rows) (db s) \<and>
               collections (db (snd (delete_documents w s p))) n =
                 Some (filter (\<lambda>e. source e \<noteq> p) rows) \<and>
               out (snd (delete_documents w s p)) =
                 out s @ map (\<lambda>e. MsgDeletedPk (pk e)) (filter (\<lambda>e. source e = p) rows) @
                   [MsgDeleted (length (filter (\<lambda>e. source e = p) rows)) p])"
proof (cases "filter (\<lambda>e. source e = p) rows = []")
  case True
  with delete_documents_found[OF assms(1-3) assms(5), where w = w] show ?thesis
    by (simp add: print_def)
next
  case False
  with delete_documents_effect(1-4)[OF assms(1-4) False assms(5), where w = w] show ?thesis
    by simp
qed

lemma delete_documents_plain_example:
  "fst (delete_documents demo_world (demo_state demo_db) ''nonexistent.pdf'') = Return () \<and>
   snd (delete_documents demo_world (demo_state demo_db) ''nonexistent.pdf'') =
     (demo_state demo_db)\<lparr>collection := Some ''docs'',
                           out := [MsgNoDocumentsFound ''nonexistent.pdf'']\<rparr> \<and>
   fst (delete_documents demo_world (demo_state demo_db) ''a.pdf'') = Return () \<and>
   collections (db (snd (delete_documents demo_world (demo_state demo_db) ''a.pdf''))) ''docs'' =
     Some [\<lparr>pk = 2, doc = demo_doc ''two'' ''gone.pdf''\<rparr>,
           \<lparr>pk = 4, doc = demo_doc ''four'' ''b.pdf''\<rparr>,
           \<lparr>pk = 5, doc = demo_doc ''five!'' ''gone.pdf''\<rparr>] \<and>
   out (snd (delete_documents demo_world (demo_state demo_db) ''a.pdf'')) =
     [MsgDeletedPk 1, MsgDeletedPk 3, MsgDeleted 2 ''a.pdf'']"
proof -
  have c: "collection (demo_state demo_db) = None \<or> collection (demo_state demo_db) = Some ''docs''"
    by (simp add: demo_state_facts)
  have r: "collections (db (demo_state demo_db)) ''docs'' = Some demo_rows"
    by (simp add: demo_state_facts demo_db_facts)
  have p0: "plain ''nonexistent.pdf''" and p1: "plain ''a.pdf''"
    by (simp_all add: plain_def)
  note t0 = delete_documents_plain[OF demo_state_facts(1) c r demo_db_facts(2) p0,
      where w = demo_world]
  note t1 = delete_documents_plain[OF demo_state_facts(1) c r demo_db_facts(2) p1,
      where w = demo_world]
  have f0: "filter (\<lambda>e. source e = ''nonexistent.pdf'') demo_rows = []"
    by (simp add: demo_rows_def demo_doc_def)
  have f1: "filter (\<lambda>e. source e = ''a.pdf'') demo_rows =
      [\<lparr>pk = 1, doc = demo_doc ''one'' ''a.pdf''\<rparr>, \<lparr>pk = 3, doc = demo_doc ''three'' ''a.pdf''\<rparr>]"
    by (simp add: demo_rows_def demo_doc_def)
  have f2: "filter (\<lambda>e. source e \<noteq> ''a.pdf'') demo_rows =
      [\<lparr>pk = 2, doc = demo_doc ''two'' ''gone.pdf''\<rparr>,
           \<lparr>pk = 4, doc = demo_doc ''four'' ''b.pdf''\<rparr>,
           \<lparr>pk = 5, doc = demo_doc ''five!'' ''gone.pdf''\<rparr>]"
    by (simp add: demo_rows_def demo_doc_def)
  from t0 t1 show ?thesis
    by (simp add: f0 f1 f2 demo_state_facts collection_delete_def demo_db_def demo_rows_def
        demo_doc_def)
qed

text \<open>
  Claim C5 says that \<open>delete_documents\<close>, for a path that no row has as its source,
  reports zero deletions, returns without error and leaves the collection unchanged, and
  that it otherwise deletes the matching rows, one call per row. The program departs from
  it on two inputs. On a server without the collection no row matches, yet the call raises
  \<open>SchemaNotReadyException\<close> when it opens the handle. On the five-row collection no row
  has \<open>injection_path\<close> as its source, yet the filter text pasted for it selects every
  row, and the call deletes all five and reports five deletions.
\<close>

theorem delete_documents_failing_inputs:
  "source_count (demo_state empty_db) ''nonexistent.pdf'' = 0 \<and>
   fst (delete_documents demo_world (demo_state empty_db) ''nonexistent.pdf'') =
     Raise (SchemaNotReadyException ''docs'') \<and>
   source_count (demo_state demo_db) injection_path = 0 \<and>
   collections (db (demo_state demo_db)) ''docs'' = Some demo_rows \<and>
   fst (delete_documents demo_world (demo_state demo_db) injection_path) = Return () \<and>
   collections (db (snd (delete_documents demo_world (demo_state demo_db) injection_path))) ''docs'' =
     Some [] \<and>
   out (snd (delete_documents demo_world (demo_state demo_db) injection_path)) =
     [MsgDeletedPk 1, MsgDeletedPk 2, MsgDeletedPk 3, MsgDeletedPk 4, MsgDeletedPk 5,
      MsgDeleted 5 injection_path]"
  by code_simp

subsection \<open>Updating a file\<close>

text \<open>
  Where the update is not atomic: let the configured collection hold rows whose source is
  the given path, a path with neither a single quote nor a backslash that is neither a
  file nor a directory on disk. Then \<open>update_documents\<close> raises \<open>FileNotFoundError\<close>
  (from the insert step), and the state it leaves behind has lost every row of that
  source: the rows of other sources are all that remains of the collection, and nothing
  puts the deleted rows back.
\<close>

lemma update_documents_plain_not_atomic:
  assumes "collection_name (config s) = Some n"
      and "collection s = None \<or> collection s = Some n"
      and "collections (db s) n = Some rows"
      and "distinct (map pk rows)"
      and "filter (\<lambda>e. source e = p) rows \<noteq> []"
      and "\<not> isfile w p" and "\<not> isdir w p"
      and "plain p"
  shows "fst (update_documents w s p) = Raise (FileNotFoundError p) \<and>
         collections (db (snd (update_documents w s p))) n =
           Some (filter (\<lambda>e. source e \<noteq> p) rows) \<and>
         0 < source_count s p \<and>
         source_count (snd (update_documents w s p)) p = 0"
proof -
  let ?s1 = "print (MsgUpdating p) s"
  let ?s3 = "snd (delete_documents w ?s1 p)"
  have a: "collection_name (config ?s1) = Some n"
    "collection ?s1 = None \<or> collection ?s1 = Some n"
    "collections (db ?s1) n = Some rows"
    using assms(1-3) by (simp_all add: print_def)
  note e = delete_documents_effect[OF a assms(4,5) assms(8), where w = w]
  have u: "update_documents w s p = insert_documents w ?s3 p"
    using update_documents_steps[OF assms(1-3) assms(8), where w = w] assms(5) by simp
  have "load_documents w ?s3 p = Raise (FileNotFoundError p)"
    using assms(6,7) by (simp add: load_documents_def)
  then have i: "insert_documents w ?s3 p = (Raise (FileNotFoundError p), print (MsgInserting p) ?s3)"
    by (rule insert_documents_load_Raise)
  have r: "collections (db (snd (update_documents w s p))) n = Some (filter (\<lambda>e. source e \<noteq> p) rows)"
    unfolding u i using e(3) by (simp add: print_def)
  have c: "collection_name (config (snd (update_documents w s p))) = Some n"
    unfolding u i using e(5) assms(1) by (simp add: print_def)
  have "source_count (snd (update_documents w s p)) p =
        length (filter (\<lambda>e. source e = p) (filter (\<lambda>e. source e \<noteq> p) rows))"
    by (rule source_count_rows[OF c r])
  then have z: "source_count (snd (update_documents w s p)) p = 0" by simp
  have "source_count s p = length (filter (\<lambda>e. source e = p) rows)"
    by (rule source_count_rows[OF assms(1,3)])
  then have pos: "0 < source_count s p" using assms(5) by simp
  from u i r z pos show ?thesis by simp
qed

lemma update_documents_plain_not_atomic_example:
  "fst (update_documents demo_world (demo_state demo_db) ''gone.pdf'') =
     Raise (FileNotFoundError ''gone.pdf'') \<and>
   source_count (demo_state demo_db) ''gone.pdf'' = 2 \<and>
   source_count (snd (update_documents demo_world (demo_state demo_db) ''gone.pdf'')) ''gone.pdf'' = 0 \<and>
   collections (db (snd (update_documents demo_world (demo_state demo_db) ''gone.pdf''))) ''docs'' =
     Some [\<lparr>pk = 1, doc = demo_doc ''one'' ''a.pdf''\<rparr>,
           \<lparr>pk = 3, doc = demo_doc ''three'' ''a.pdf''\<rparr>,
           \<lparr>pk = 4, doc = demo_doc ''four'' ''b.pdf''\<rparr>]"
proof -
  have c: "collection (demo_state demo_db) = None \<or> collection (demo_state demo_db) = Some ''docs''"
    by (simp add: demo_state_facts)
  have r: "collections (db (demo_state demo_db)) ''docs'' = Some demo_rows"
    by (simp add: demo_state_facts demo_db_facts)
  have f: "filter (\<lambda>e. source e = ''gone.pdf'') demo_rows \<noteq> []"
    by (simp add: demo_rows_def demo_doc_def)
  have nf: "\<not> isfile demo_world ''gone.pdf''" and nd: "\<not> isdir demo_world ''gone.pdf''"
    by (simp_all add: demo_world_def)
  have k: "source_count (demo_state demo_db) ''gone.pdf'' = 2"
    by (simp add: source_count_def demo_state_facts demo_db_facts(1))
       (simp add: demo_rows_def demo_doc_def)
  have f2: "filter (\<lambda>e. source e \<noteq> ''gone.pdf'') demo_rows =
      [\<lparr>pk = 1, doc = demo_doc ''one'' ''a.pdf''\<rparr>,
           \<lparr>pk = 3, doc = demo_doc ''three'' ''a.pdf''\<rparr>,
           \<lparr>pk = 4, doc = demo_doc ''four'' ''b.pdf''\<rparr>]"
    by (simp add: demo_rows_def demo_doc_def)
  have pl: "plain ''gone.pdf''"
    by (simp add: plain_def)
  from update_documents_plain_not_atomic[OF demo_state_facts(1) c r demo_db_facts(2) f nf nd pl] k f2
  show ?thesis by simp
qed

text \<open>
  Claim C10 says that \<open>update_documents\<close>, for every path that has rows in the index
  and is neither a file nor a directory on disk, deletes those rows and then raises
  \<open>FileNotFoundError\<close> from the insert step. The program departs from it for a path
  with an apostrophe. The collection holds a row of \<open>quoted_path\<close>, which is not on
  disk; the filter text pasted for it is no expression, the existence check raises the
  server's error for it, and the database is left as it was, the row included.
\<close>

theorem update_documents_quoted_path:
  "source_count (demo_state quoted_db) quoted_path = 1 \<and>
   \<not> isfile demo_world quoted_path \<and> \<not> isdir demo_world quoted_path \<and>
   fst (update_documents demo_world (demo_state quoted_db) quoted_path) =
     Raise (MilvusException (source_expr quoted_path)) \<and>
   collections (db (snd (update_documents demo_world (demo_state quoted_db) quoted_path))) ''docs'' =
     collections quoted_db ''docs'' \<and>
   source_count (snd (update_documents demo_world (demo_state quoted_db) quoted_path)) quoted_path = 1"
  by code_simp

text \<open>
  The state in which \<open>update_documents\<close> reaches its insert step: after the existence
  check alone when no row has the path as its source, after the deletion otherwise.
\<close>

lemma update_documents_before_insert:
  fixes p :: string and w :: world
  assumes "collection_name (config s) = Some n"
      and "collection s = None \<or> collection s = Some n"
      and "collections (db s) n = Some rows"
      and "distinct (map pk rows)"
      and "plain p"
  defines "s2 \<equiv> (if filter (\<lambda>e. source e = p) rows = []
                 then (print (MsgUpdating p) s)\<lparr>collection := Some n\<rparr>
                 else snd (delete_documents w (print (MsgUpdating p) s) p))"
  shows "config s2 = config s" and "text_splitter s2 = text_splitter s"
    and "collections (db s2) n = Some (filter (\<lambda>e. source e \<noteq> p) rows)"
    and "next_pk (db s2) = next_pk (db s)"
proof -
  let ?s1 = "print (MsgUpdating p) s"
  have a: "collection_name (config ?s1) = Some n"
    "collection ?s1 = None \<or> collection ?s1 = Some n"
    "collections (db ?s1) n = Some rows"
    using assms(1-3) by (simp_all add: print_def)
  have "config s2 = config s \<and> text_splitter s2 = text_splitter s \<and>
        collections (db s2) n = Some (filter (\<lambda>e. source e \<noteq> p) rows) \<and>
        next_pk (db s2) = next_pk (db s)"
  proof (cases "filter (\<lambda>e. source e = p) rows = []")
    case True
    then have "filter (\<lambda>e. source e \<noteq> p) rows = rows"
      by (simp add: filter_empty_conv)
    with True assms(3) show ?thesis by (simp add: s2_def print_def)
  next
    case False
    note e = delete_documents_effect[OF a assms(4) False assms(5), where w = w]
    from False e(3,5,6,8) show ?thesis by (simp add: s2_def print_def)
  qed
  then show "config s2 = config s" and "text_splitter s2 = text_splitter s"
    and "collections (db s2) n = Some (filter (\<lambda>e. source e \<noteq> p) rows)"
    and "next_pk (db s2) = next_pk (db s)"
    by simp_all
qed

text \<open>
  Where the update is check, delete, insert: let the configured collection exist, with
  \<open>rows\<close> its rows under pairwise different keys, and let the path hold neither a
  single quote nor a backslash. \<open>update_documents\<close> looks the path up, deletes the matching rows when
  there is one, and then runs \<open>insert_documents\<close> in either case: its outcome is that of
  the insert, started in the state after the check alone or after the deletion. When the
  path loads (and host and port are configured) the update returns normally, the
  collection holds the rows of the other sources followed by the newly loaded chunks, and
  the number of rows whose source is the path is the number of loaded chunks tagged with
  it; for a file that is the number of chunks just loaded, whatever was stored before.
\<close>

lemma update_documents_plain_sequence:
  assumes "collection_name (config s) = Some n"
      and "collection s = None \<or> collection s = Some n"
      and "collections (db s) n = Some rows"
      and "distinct (map pk rows)"
      and "plain p"
  shows "update_documents w s p =
           insert_documents w
             (if filter (\<lambda>e. source e = p) rows = []
              then (print (MsgUpdating p) s)\<lparr>collection := Some n\<rparr>
              else snd (delete_documents w (print (MsgUpdating p) s) p)) p \<and>
         (filter (\<lambda>e. source e = p) rows \<noteq> [] \<longrightarrow>
            fst (delete_documents w (print (MsgUpdating p) s) p) = Return () \<and>
            collections (db (snd (delete_documents w (print (MsgUpdating p) s) p))) n =
              Some (filter (\<lambda>e. source e \<noteq> p) rows)) \<and>
         (\<forall>docs. load_documents w s p = Return docs \<and>
                 docker_host (config s) \<noteq> None \<and> docker_port (config s) \<noteq> None \<longrightarrow>
            fst (update_documents w s p) = Return () \<and>
            collections (db (snd (update_documents w s p))) n =
              Some (filter (\<lambda>e. source e \<noteq> p) rows @
                    map (\<lambda>(k, x). \<lparr>pk = k, doc = x\<rparr>) (enumerate (next_pk (db s)) docs)) \<and>
            source_count (snd (update_documents w s p)) p =
              length (filter (\<lambda>d. meta_source d = p) docs) \<and>
            (isfile w p \<longrightarrow> source_count (snd (update_documents w s p)) p = length docs))"
proof -
  let ?s1 = "print (MsgUpdating p) s"
  let ?s2 = "if filter (\<lambda>e. source e = p) rows = []
             then ?s1\<lparr>collection := Some n\<rparr> else snd (delete_documents w ?s1 p)"
  let ?keep = "filter (\<lambda>e. source e \<noteq> p) rows"
  have a: "collection_name (config ?s1) = Some n"
    "collection ?s1 = None \<or> collection ?s1 = Some n"
    "collections (db ?s1) n = Some rows"
    using assms(1-3) by (simp_all add: print_def)
  note b = update_documents_before_insert[OF assms, where w = w]
  have u: "update_documents w s p = insert_documents w ?s2 p"
    by (rule update_documents_steps[OF assms(1-3) assms(5)])
  have d: "filter (\<lambda>e. source e = p) rows \<noteq> [] \<longrightarrow>
            fst (delete_documents w ?s1 p) = Return () \<and>
            collections (db (snd (delete_documents w ?s1 p))) n = Some ?keep"
    using delete_documents_effect(1,3)[OF a assms(4) _ assms(5), where w = w] by blast
  have l: "fst (update_documents w s p) = Return () \<and>
           collections (db (snd (update_documents w s p))) n =
             Some (?keep @ map (\<lambda>(k, x). \<lparr>pk = k, doc = x\<rparr>) (enumerate (next_pk (db s)) docs)) \<and>
           source_count (snd (update_documents w s p)) p =
             length (filter (\<lambda>d. meta_source d = p) docs) \<and>
           (isfile w p \<longrightarrow> source_count (snd (update_documents w s p)) p = length docs)"
    if ld: "load_documents w s p = Return docs"
      and hp: "docker_host (config s) \<noteq> None" "docker_port (config s) \<noteq> None" for docs
  proof -
    from hp obtain h pt where h: "docker_host (config s) = Some h"
      and pt: "docker_port (config s) = Some pt" by auto
    have c2: "collection_name (config ?s2) = Some n" "docker_host (config ?s2) = Some h"
      "docker_port (config ?s2) = Some pt"
      using b(1) assms(1) h pt by simp_all
    have l2: "load_documents w ?s2 p = Return docs"
      using load_documents_cong[OF b(1,2), of w p] ld by simp
    note i = insert_documents_ok[OF c2 l2]
    let ?new = "map (\<lambda>(k, x). \<lparr>pk = k, doc = x\<rparr>) (enumerate (next_pk (db s)) docs)"
    have r: "collections (add_documents docs n (db ?s2)) n = Some (?keep @ ?new)"
      using b(3,4) by (simp add: add_documents_def)
    have ret: "fst (update_documents w s p) = Return ()"
      unfolding u i by simp
    have rows': "collections (db (snd (update_documents w s p))) n = Some (?keep @ ?new)"
      unfolding u i using r by simp
    have cfg: "collection_name (config (snd (update_documents w s p))) = Some n"
      unfolding u i using c2(1) by simp
    have "source_count (snd (update_documents w s p)) p =
          length (filter (\<lambda>e. source e = p) (?keep @ ?new))"
      by (rule source_count_rows[OF cfg rows'])
    also have "\<dots> = length (filter (\<lambda>d. meta_source d = p) docs)"
      using count_enumerate[of p "next_pk (db s)" docs] by (simp add: comp_def)
    finally have cnt: "source_count (snd (update_documents w s p)) p =
        length (filter (\<lambda>d. meta_source d = p) docs)" .
    have "isfile w p \<longrightarrow> source_count (snd (update_documents w s p)) p = length docs"
      using cnt load_documents_file_source[OF _ ld] by auto
    with ret rows' cnt show ?thesis by blast
  qed
  from u d l show ?thesis by blast
qed

lemma update_documents_plain_sequence_example:
  "source_count (demo_state demo_db) ''a.pdf'' = 2 \<and>
   fst (update_documents demo_world (demo_state demo_db) ''a.pdf'') = Return () \<and>
   source_count (snd (update_documents demo_world (demo_state demo_db) ''a.pdf'')) ''a.pdf'' = 3 \<and>
   map pk (the (collections (db (snd (update_documents demo_world (demo_state demo_db) ''a.pdf'')))
     ''docs'')) = [2, 4, 5, 6, 7, 8]"
proof -
  have c: "collection (demo_state demo_db) = None \<or> collection (demo_state demo_db) = Some ''docs''"
    by (simp add: demo_state_facts)
  have r: "collections (db (demo_state demo_db)) ''docs'' = Some demo_rows"
    by (simp add: demo_state_facts demo_db_facts)
  have f: "isfile demo_world ''a.pdf''"
    by (simp add: demo_world_def)
  have ld: "load_documents demo_world (demo_state demo_db) ''a.pdf'' =
      Return [\<lparr>page_content = ''alpha '', meta_source = ''a.pdf'', meta_page = 0,
                meta_start_index = Some 0\<rparr>,
              \<lparr>page_content = ''a beta'', meta_source = ''a.pdf'', meta_page = 0,
                meta_start_index = Some 4\<rparr>,
              \<lparr>page_content = ''gamma'', meta_source = ''a.pdf'', meta_page = 1,
                meta_start_index = Some 0\<rparr>]"
    by code_simp
  have k: "source_count (demo_state demo_db) ''a.pdf'' = 2"
    by (simp add: source_count_def demo_state_facts demo_db_facts(1))
       (simp add: demo_rows_def demo_doc_def)
  have f2: "filter (\<lambda>e. source e \<noteq> ''a.pdf'') demo_rows =
      [\<lparr>pk = 2, doc = demo_doc ''two'' ''gone.pdf''\<rparr>,
           \<lparr>pk = 4, doc = demo_doc ''four'' ''b.pdf''\<rparr>,
           \<lparr>pk = 5, doc = demo_doc ''five!'' ''gone.pdf''\<rparr>]"
    by (simp add: demo_rows_def demo_doc_def)
  have hp: "load_documents demo_world (demo_state demo_db) ''a.pdf'' =
      Return [\<lparr>page_content = ''alpha '', meta_source = ''a.pdf'', meta_page = 0,
                meta_start_index = Some 0\<rparr>,
              \<lparr>page_content = ''a beta'', meta_source = ''a.pdf'', meta_page = 0,
                meta_start_index = Some 4\<rparr>,
              \<lparr>page_content = ''gamma'', meta_source = ''a.pdf'', meta_page = 1,
                meta_start_index = Some 0\<rparr>] \<and>
      docker_host (config (demo_state demo_db)) \<noteq> None \<and>
      docker_port (config (demo_state demo_db)) \<noteq> None"
    using ld by (simp add: demo_state_facts)
  have pl: "plain ''a.pdf''"
    by (simp add: plain_def)
  from update_documents_plain_sequence[OF demo_state_facts(1) c r demo_db_facts(2) pl,
      where w = demo_world, THEN conjunct2, THEN conjunct2, rule_format, OF hp] f
  have "fst (update_documents demo_world (demo_state demo_db) ''a.pdf'') = Return () \<and>
        collections (db (snd (update_documents demo_world (demo_state demo_db) ''a.pdf''))) ''docs'' =
          Some (filter (\<lambda>e. source e \<noteq> ''a.pdf'') demo_rows @
                map (\<lambda>(k, x). \<lparr>pk = k, doc = x\<rparr>) (enumerate 6
                 [\<lparr>page_content = ''alpha '', meta_source = ''a.pdf'', meta_page = 0,
                    meta_start_index = Some 0\<rparr>,
                  \<lparr>page_content = ''a beta'', meta_source = ''a.pdf'', meta_page = 0,
                    meta_start_index = Some 4\<rparr>,
                  \<lparr>page_content = ''gamma'', meta_source = ''a.pdf'', meta_page = 1,
                    meta_start_index = Some 0\<rparr>])) \<and>
        source_count (snd (update_documents demo_world (demo_state demo_db) ''a.pdf'')) ''a.pdf'' = 3"
    by (simp add: demo_state_facts demo_db_facts)
  with k f2 show ?thesis by simp
qed

text \<open>
  Claim C1 says that \<open>update_documents\<close>, for every path, checks whether a row has the
  path as its source, deletes all such rows when there is one, and then inserts in either
  case. The program departs from it on two inputs. On a server without the collection the
  existence check raises \<open>SchemaNotReadyException\<close> and nothing is inserted, although
  the file is on disk and an insert alone succeeds. On the five-row collection no row has
  \<open>injection_path\<close> as its source, yet the check finds rows, the deletion removes all
  five rows of the other files, and only then the insert fails on the missing file.
\<close>

theorem update_documents_failing_inputs:
  "isfile demo_world ''a.pdf'' \<and>
   fst (insert_documents demo_world (demo_state empty_db) ''a.pdf'') = Return () \<and>
   fst (update_documents demo_world (demo_state empty_db) ''a.pdf'') =
     Raise (SchemaNotReadyException ''docs'') \<and>
   collections (db (snd (update_documents demo_world (demo_state empty_db) ''a.pdf''))) ''docs'' =
     None \<and>
   source_count (demo_state demo_db) injection_path = 0 \<and>
   fst (update_documents demo_world (demo_state demo_db) injection_path) =
     Raise (FileNotFoundError injection_path) \<and>
   collections (db (snd (update_documents demo_world (demo_state demo_db) injection_path))) ''docs'' =
     Some []"
  by code_simp

subsection \<open>Inserting a file twice\<close>

lemma insert_documents_count:
  assumes "collection_name (config s) = Some n"
      and "docker_host (config s) = Some h" and "docker_port (config s) = Some pt"
      and "load_documents w s p = Return docs"
  shows "fst (insert_documents w s p) = Return ()"
    and "config (snd (insert_documents w s p)) = config s"
    and "text_splitter (snd (insert_documents w s p)) = text_splitter s"
    and "source_count (snd (insert_documents w s p)) q =
           source_count s q + length (filter (\<lambda>d. meta_source d = q) docs)"
proof -
  note i = insert_documents_ok[OF assms]
  show "fst (insert_documents w s p) = Return ()"
    and "config (snd (insert_documents w s p)) = config s"
    and "text_splitter (snd (insert_documents w s p)) = text_splitter s"
    unfolding i by simp_all
  have "source_count (snd (insert_documents w s p)) q =
        source_count (s\<lparr>db := add_documents docs n (db s)\<rparr>) q"
    unfolding i by (rule source_count_cong) simp_all
  then show "source_count (snd (insert_documents w s p)) q =
           source_count s q + length (filter (\<lambda>d. meta_source d = q) docs)"
    by (simp add: source_count_add_documents[OF assms(1)])
qed

text \<open>
  Claim C2. When \<open>insert_documents\<close> has returned normally for a path, a second call for
  the same path (same disk, nothing deleted in between) returns normally too and adds as
  many rows of that source as the first call did: nothing is recognised as already
  stored. When the path was not indexed before the first call, the number of rows whose
  source is the path is after the second call twice what it was after the first.
\<close>

theorem insert_documents_twice:
  assumes "insert_documents w s p = (Return (), s1)"
  shows "\<exists>s2 docs. load_documents w s p = Return docs \<and>
           insert_documents w s1 p = (Return (), s2) \<and>
           source_count s1 p = source_count s p + length (filter (\<lambda>d. meta_source d = p) docs) \<and>
           source_count s2 p = source_count s1 p + length (filter (\<lambda>d. meta_source d = p) docs) \<and>
           (source_count s p = 0 \<longrightarrow> source_count s2 p = 2 * source_count s1 p)"
proof -
  from insert_documents_Return[OF assms] obtain n h pt docs
    where c: "collection_name (config s) = Some n" "docker_host (config s) = Some h"
      "docker_port (config s) = Some pt" and ld: "load_documents w s p = Return docs"
    by blast
  note i1 = insert_documents_count[OF c ld]
  have cfg1: "config s1 = config s" and sp1: "text_splitter s1 = text_splitter s"
    using i1(2,3) assms by simp_all
  have c1: "collection_name (config s1) = Some n" "docker_host (config s1) = Some h"
    "docker_port (config s1) = Some pt"
    using cfg1 c by simp_all
  have ld1: "load_documents w s1 p = Return docs"
    using load_documents_cong[OF cfg1 sp1, of w p] ld by simp
  note i2 = insert_documents_count[OF c1 ld1]
  obtain r s2 where s2: "insert_documents w s1 p = (r, s2)"
    by (cases "insert_documents w s1 p")
  with i2(1) have r: "r = Return ()" by simp
  have k1: "source_count s1 p = source_count s p + length (filter (\<lambda>d. meta_source d = p) docs)"
    using i1(4)[of p] assms by simp
  have k2: "source_count s2 p = source_count s1 p + length (filter (\<lambda>d. meta_source d = p) docs)"
    using i2(4)[of p] s2 by simp
  from ld s2 r k1 k2 show ?thesis by auto
qed

theorem insert_documents_twice_witness:
  "source_count (demo_state empty_db) ''a.pdf'' = 0 \<and>
   fst (insert_documents demo_world (demo_state empty_db) ''a.pdf'') = Return () \<and>
   source_count (snd (insert_documents demo_world (demo_state empty_db) ''a.pdf'')) ''a.pdf'' = 3 \<and>
   fst (insert_documents demo_world
          (snd (insert_documents demo_world (demo_state empty_db) ''a.pdf'')) ''a.pdf'') = Return () \<and>
   source_count (snd (insert_documents demo_world
          (snd (insert_documents demo_world (demo_state empty_db) ''a.pdf'')) ''a.pdf'')) ''a.pdf'' = 6"
proof -
  let ?s1 = "snd (insert_documents demo_world (demo_state empty_db) ''a.pdf'')"
  have ld: "load_documents demo_world (demo_state empty_db) ''a.pdf'' =
      Return [\<lparr>page_content = ''alpha '', meta_source = ''a.pdf'', meta_page = 0,
                meta_start_index = Some 0\<rparr>,
              \<lparr>page_content = ''a beta'', meta_source = ''a.pdf'', meta_page = 0,
                meta_start_index = Some 4\<rparr>,
              \<lparr>page_content = ''gamma'', meta_source = ''a.pdf'', meta_page = 1,
                meta_start_index = Some 0\<rparr>]"
    by code_simp
  have z: "source_count (demo_state empty_db) ''a.pdf'' = 0"
    by (simp add: source_count_def demo_state_facts empty_db_def)
  have r1: "fst (insert_documents demo_world (demo_state empty_db) ''a.pdf'') = Return ()"
    by (rule insert_documents_count(1)[OF demo_state_facts(1-3) ld])
  then have first: "insert_documents demo_world (demo_state empty_db) ''a.pdf'' = (Return (), ?s1)"
    by (simp add: prod_eq_iff)
  from insert_documents_twice[OF first] ld z r1 show ?thesis
    by auto
qed

subsection \<open>Loading into a fresh collection\<close>

lemma drop_collection_effect:
  assumes "collection_name (config s) = Some n"
  shows "fst (drop_collection s) = Return ()"
    and "config (snd (drop_collection s)) = config s"
    and "text_splitter (snd (drop_collection s)) = text_splitter s"
    and "collections (db (snd (drop_collection s))) = (collections (db s))(n := None)"
    and "next_pk (db (snd (drop_collection s))) = next_pk (db s)"
    and "out (snd (drop_collection s)) =
           out s @ [if has_collection (db s) n then MsgDropped n else MsgNotExist n]"
  using assms
  by (auto simp: drop_collection_def get_collection_name_def has_collection_def
      drop_collection_db_def print_def)

lemma load_collection_after_drop:
  assumes "drop_collection s = (Return (), s1)"
      and "collection_name (config s1) = Some n"
      and "docker_host (config s1) = Some h" and "docker_port (config s1) = Some pt"
  shows "load_collection w s p =
           (case load_documents w s1 p of
              Raise e \<Rightarrow> (Raise e, print (MsgLoading p) s1)
            | Return docs \<Rightarrow>
                (let s4 = s1\<lparr>vector_db := Some \<lparr>vs_connection_args = \<lparr>host = h, port = pt\<rparr>,
                                  vs_collection_name = n,
                                  vs_search_params = Some get_search_params,
                                  vs_index_params = Some get_index_params\<rparr>,
                               db := add_documents docs n (db s1),
                               out := out s1 @ [MsgLoading p, MsgLoaded (length docs)]\<rparr>
                 in if has_collection (db s4) n then (Return (), s4\<lparr>collection := Some n\<rparr>)
                    else (Raise (SchemaNotReadyException n), s4)))"
proof (cases "load_documents w s1 p")
  case (Raise e)
  then have "load_documents w (print (MsgLoading p) s1) p = Raise e"
    by (simp add: load_documents_print)
  with Raise assms(1) show ?thesis
    by (simp add: load_collection_def Let_def)
next
  case (Return docs)
  let ?s2 = "print (MsgLoading p) s1"
  have l: "load_documents w ?s2 p = Return docs"
    using Return by (simp add: load_documents_print)
  have c: "collection_name (config ?s2) = Some n" "docker_host (config ?s2) = Some h"
    "docker_port (config ?s2) = Some pt"
    using assms(2-4) by (simp_all add: print_def)
  note st = store_documents_ok[OF c, of docs]
  show ?thesis
    using assms(1,2) Return
    by (simp add: load_collection_def Let_def l st get_collection_name_def Collection_def)
       (simp add: print_def Collection_def)
qed

text \<open>
  Claim C4. With the collection name, host and port configured, \<open>load_collection\<close>
  first drops the configured collection, whether it exists or not, and only then loads
  and stores the documents of the path. When loading fails, the error is raised with the
  collection already gone. When the path yields chunks, the call returns normally and the
  collection holds exactly those chunks, in order, under fresh keys, and nothing of what
  it held before; the printed lines show the drop before the load. (A path that yields no
  chunk leaves no collection behind, and opening the handle then raises.)
\<close>

theorem load_collection_fresh:
  assumes "collection_name (config s) = Some n"
      and "docker_host (config s) = Some h" and "docker_port (config s) = Some pt"
  shows "case load_documents w s p of
           Raise e \<Rightarrow>
             fst (load_collection w s p) = Raise e \<and>
             collections (db (snd (load_collection w s p))) n = None
         | Return docs \<Rightarrow>
             if docs = [] then
               fst (load_collection w s p) = Raise (SchemaNotReadyException n) \<and>
               collections (db (snd (load_collection w s p))) n = None
             else
               fst (load_collection w s p) = Return () \<and>
               collections (db (snd (load_collection w s p))) n =
                 Some (map (\<lambda>(k, x). \<lparr>pk = k, doc = x\<rparr>) (enumerate (next_pk (db s)) docs)) \<and>
               map doc (the (collections (db (snd (load_collection w s p))) n)) = docs \<and>
               collection (snd (load_collection w s p)) = Some n \<and>
               out (snd (load_collection w s p)) =
                 out s @ [if has_collection (db s) n then MsgDropped n else MsgNotExist n,
                          MsgLoading p, MsgLoaded (length docs)]"
proof -
  let ?s1 = "snd (drop_collection s)"
  note d = drop_collection_effect[OF assms(1)]
  have d1: "drop_collection s = (Return (), ?s1)"
    using d(1) by (simp add: prod_eq_iff)
  have c1: "collection_name (config ?s1) = Some n" "docker_host (config ?s1) = Some h"
    "docker_port (config ?s1) = Some pt"
    using d(2) assms by simp_all
  have l1: "load_documents w ?s1 p = load_documents w s p"
    by (rule load_documents_cong[OF d(2,3)])
  note lc = load_collection_after_drop[OF d1 c1, of w p, unfolded l1]
  have gone: "collections (db ?s1) n = None"
    using d(4) by simp
  show ?thesis
  proof (cases "load_documents w s p")
    case (Raise e)
    with lc gone show ?thesis by (simp add: print_def)
  next
    case (Return docs)
    show ?thesis
    proof (cases "docs = []")
      case True
      with lc Return gone show ?thesis
        by (simp add: add_documents_def has_collection_def)
    next
      case False
      have m: "map doc (map (\<lambda>(k, x). \<lparr>pk = k, doc = x\<rparr>) (enumerate k docs)) = docs" for k
        by (induction docs arbitrary: k) simp_all
      from False lc Return gone d(5,6) m show ?thesis
        by (simp add: add_documents_def has_collection_def)
    qed
  qed
qed

theorem load_collection_fresh_witness:
  "has_collection demo_db ''docs'' \<and>
   fst (load_collection demo_world (demo_state demo_db) ''pdfs'') = Return () \<and>
   collections (db (snd (load_collection demo_world (demo_state demo_db) ''pdfs''))) ''docs'' =
     Some [\<lparr>pk = 6, doc = \<lparr>page_content = ''omega'', meta_source = ''pdfs/c.pdf'',
                             meta_page = 0, meta_start_index = Some 0\<rparr>\<rparr>] \<and>
   out (snd (load_collection demo_world (demo_state demo_db) ''pdfs'')) =
     [MsgDropped ''docs'', MsgLoading ''pdfs'', MsgLoaded 1] \<and>
   fst (load_collection demo_world (demo_state demo_db) ''gone.pdf'') =
     Raise (FileNotFoundError ''gone.pdf'') \<and>
   collections (db (snd (load_collection demo_world (demo_state demo_db) ''gone.pdf''))) ''docs'' = None"
proof -
  have ld: "load_documents demo_world (demo_state demo_db) ''pdfs'' =
      Return [\<lparr>page_content = ''omega'', meta_source = ''pdfs/c.pdf'',
                             meta_page = 0, meta_start_index = Some 0\<rparr>]"
    by code_simp
  have lg: "load_documents demo_world (demo_state demo_db) ''gone.pdf'' =
      Raise (FileNotFoundError ''gone.pdf'')"
    by code_simp
  have h: "has_collection demo_db ''docs''"
    by (simp add: has_collection_def demo_db_facts)
  note t = load_collection_fresh[OF demo_state_facts(1)[of demo_db]
      demo_state_facts(2)[of demo_db] demo_state_facts(3)[of demo_db], of demo_world]
  from t[of "''pdfs''"] t[of "''gone.pdf''"] h show ?thesis
    by (simp add: ld lg demo_state_facts demo_db_facts)
qed

subsection \<open>Errors of insert\<close>

text \<open>
  Claim C7 as stated fails on two inputs. With the file type \<open>txt\<close> configured and a path
  that does not exist, \<open>insert_documents\<close> raises \<open>FileNotFoundError\<close>, not the
  unsupported-type error: the path is looked at first. With the file type \<open>PDF\<close>, which
  is not the string \<open>pdf\<close>, the insert succeeds: the type is lower-cased before it is
  compared.
\<close>

theorem insert_documents_type_error_counterexample:
  "get_or (file_type (config ((demo_state empty_db)\<lparr>config := demo_config\<lparr>file_type := Some ''txt''\<rparr>\<rparr>)))
     ''pdf'' \<noteq> ''pdf'' \<and>
   fst (insert_documents demo_world
         ((demo_state empty_db)\<lparr>config := demo_config\<lparr>file_type := Some ''txt''\<rparr>\<rparr>)
         ''missing.pdf'') = Raise (FileNotFoundError ''missing.pdf'') \<and>
   get_or (file_type (config ((demo_state empty_db)\<lparr>config := demo_config\<lparr>file_type := Some ''PDF''\<rparr>\<rparr>)))
     ''pdf'' \<noteq> ''pdf'' \<and>
   fst (insert_documents demo_world
         ((demo_state empty_db)\<lparr>config := demo_config\<lparr>file_type := Some ''PDF''\<rparr>\<rparr>)
         ''a.pdf'') = Return ()"
  by code_simp

text \<open>
  Claim C7, amended. A path that is neither a file nor a directory makes
  \<open>insert_documents\<close> raise \<open>FileNotFoundError\<close>, whatever the configured file type.
  For a file or a directory, a configured type that is not \<open>pdf\<close> once lower-cased makes
  it raise \<open>ValueError\<close> (the unsupported-type error); the outcome is then the same
  whatever the PDF loaders and the splitter would have read, and the database is
  untouched. In every other case, with collection name, host and port configured, the
  loaded chunks are stored and their number is printed.
\<close>

theorem insert_documents_outcomes:
  assumes "collection_name (config s) = Some n"
      and "docker_host (config s) = Some h" and "docker_port (config s) = Some pt"
  shows "if \<not> isfile w p \<and> \<not> isdir w p then
           insert_documents w s p = (Raise (FileNotFoundError p), print (MsgInserting p) s)
         else if lower (get_or (file_type (config s)) ''pdf'') \<noteq> ''pdf'' then
           (\<exists>m. insert_documents w s p = (Raise (ValueError m), print (MsgInserting p) s)) \<and>
           (\<forall>pages pdfs cut.
              insert_documents (w\<lparr>pdf_pages := pages, dir_pdfs := pdfs, split_text := cut\<rparr>) s p =
              insert_documents w s p)
         else
           (\<exists>docs. load_documents w s p = Return docs \<and>
              fst (insert_documents w s p) = Return () \<and>
              db (snd (insert_documents w s p)) = add_documents docs n (db s) \<and>
              out (snd (insert_documents w s p)) =
                out s @ [MsgInserting p, MsgInserted (length docs)])"
proof -
  consider (missing) "\<not> isfile w p \<and> \<not> isdir w p"
    | (unsupported) "isfile w p \<or> isdir w p" "lower (get_or (file_type (config s)) ''pdf'') \<noteq> ''pdf''"
    | (pdf) "isfile w p \<or> isdir w p" "lower (get_or (file_type (config s)) ''pdf'') = ''pdf''"
    by blast
  then show ?thesis
  proof cases
    case missing
    then have "load_documents w s p = Raise (FileNotFoundError p)"
      by (simp add: load_documents_def)
    from insert_documents_load_Raise[OF this] missing show ?thesis by simp
  next
    case unsupported
    have l: "\<exists>m. load_documents w' s p = Raise (ValueError m)"
      if "isfile w' = isfile w" "isdir w' = isdir w" for w'
      using unsupported that by (auto simp: load_documents_def Let_def)
    have same: "load_documents (w\<lparr>pdf_pages := pages, dir_pdfs := pdfs, split_text := cut\<rparr>) s p =
          load_documents w s p" for pages pdfs cut
      using unsupported by (auto simp: load_documents_def Let_def)
    from l[of w] obtain m where m: "load_documents w s p = Raise (ValueError m)" by auto
    have "insert_documents (w\<lparr>pdf_pages := pages, dir_pdfs := pdfs, split_text := cut\<rparr>) s p =
          insert_documents w s p" for pages pdfs cut
    proof -
      have "load_documents (w\<lparr>pdf_pages := pages, dir_pdfs := pdfs, split_text := cut\<rparr>) s p =
            Raise (ValueError m)"
        using same m by simp
      from insert_documents_load_Raise[OF this] insert_documents_load_Raise[OF m]
      show ?thesis by simp
    qed
    with insert_documents_load_Raise[OF m] unsupported show ?thesis by auto
  next
    case pdf
    then have "\<exists>docs. load_documents w s p = Return docs"
      by (auto simp add: load_documents_def Let_def)
    then obtain docs where ld: "load_documents w s p = Return docs" ..
    note i = insert_documents_ok[OF assms ld]
    from pdf ld show ?thesis
      unfolding i by auto
  qed
qed

theorem insert_documents_outcomes_witness:
  "insert_documents demo_world (demo_state empty_db) ''missing.pdf'' =
     (Raise (FileNotFoundError ''missing.pdf''),
      print (MsgInserting ''missing.pdf'') (demo_state empty_db)) \<and>
   fst (insert_documents demo_world (demo_state empty_db) ''a.pdf'') = Return () \<and>
   out (snd (insert_documents demo_world (demo_state empty_db) ''a.pdf'')) =
     [MsgInserting ''a.pdf'', MsgInserted 3]"
proof -
  have ld: "load_documents demo_world (demo_state empty_db) ''a.pdf'' =
      Return [\<lparr>page_content = ''alpha '', meta_source = ''a.pdf'', meta_page = 0,
                meta_start_index = Some 0\<rparr>,
              \<lparr>page_content = ''a beta'', meta_source = ''a.pdf'', meta_page = 0,
                meta_start_index = Some 4\<rparr>,
              \<lparr>page_content = ''gamma'', meta_source = ''a.pdf'', meta_page = 1,
                meta_start_index = Some 0\<rparr>]"
    by code_simp
  have lp: "lower (get_or (file_type (config (demo_state empty_db))) ''pdf'') = ''pdf''"
    by code_simp
  note t = insert_documents_outcomes[OF demo_state_facts(1)[of empty_db]
      demo_state_facts(2)[of empty_db] demo_state_facts(3)[of empty_db], of demo_world]
  have m: "\<not> isfile demo_world ''missing.pdf'' \<and> \<not> isdir demo_world ''missing.pdf''"
    and a: "isfile demo_world ''a.pdf''"
    by (simp_all add: demo_world_def)
  from t[of "''missing.pdf''"] m
  have 1: "insert_documents demo_world (demo_state empty_db) ''missing.pdf'' =
     (Raise (FileNotFoundError ''missing.pdf''),
      print (MsgInserting ''missing.pdf'') (demo_state empty_db))"
    by simp
  from t[of "''a.pdf''"] a lp ld
  have 2: "fst (insert_documents demo_world (demo_state empty_db) ''a.pdf'') = Return () \<and>
   out (snd (insert_documents demo_world (demo_state empty_db) ''a.pdf'')) =
     [MsgInserting ''a.pdf'', MsgInserted 3]"
    by (simp add: demo_state_facts)
  from 1 2 show ?thesis by simp
qed

subsection \<open>Configuration\<close>

text \<open>
  Claim C9 as stated fails for the collection name. A configuration file with host and
  port and no collection name constructs a manager without error; the missing name shows
  only when an operation reads it: \<open>_drop_collection\<close> raises \<open>KeyError\<close> at once, and
  \<open>insert_documents\<close> raises it after the documents of the path were loaded.
\<close>

theorem init_collection_name_counterexample:
  "config_files demo_world ''nameless.json'' = JSON (demo_config\<lparr>collection_name := None\<rparr>) \<and>
   fst (init demo_world empty_db ''nameless.json'') = Return () \<and>
   snd (init demo_world empty_db ''nameless.json'') \<noteq> None \<and>
   fst (drop_collection (the (snd (init demo_world empty_db ''nameless.json'')))) =
     Raise (KeyError ''collection_name'') \<and>
   fst (insert_documents demo_world (the (snd (init demo_world empty_db ''nameless.json''))) ''a.pdf'') =
     Raise (KeyError ''collection_name'') \<and>
   load_documents demo_world (the (snd (init demo_world empty_db ''nameless.json''))) ''a.pdf'' =
     Return [\<lparr>page_content = ''alpha '', meta_source = ''a.pdf'', meta_page = 0,
               meta_start_index = Some 0\<rparr>,
             \<lparr>page_content = ''a beta'', meta_source = ''a.pdf'', meta_page = 0,
               meta_start_index = Some 4\<rparr>,
             \<lparr>page_content = ''gamma'', meta_source = ''a.pdf'', meta_page = 1,
               meta_start_index = Some 0\<rparr>]"
  by code_simp

text \<open>
  Claim C9, amended. Constructing the manager fails at once when the configuration file
  is missing (\<open>FileNotFoundError\<close>) or is not valid JSON (\<open>ValueError\<close>), when the
  chunk overlap in effect exceeds the chunk size in effect (\<open>ValueError\<close> from the
  splitter), and when the host or the port is missing (\<open>KeyError\<close>). Otherwise it
  returns a manager, whether or not a collection name is configured, in which every
  absent optional key has its default: embedding model \<open>all-mpnet-base-v2\<close>, chunk size
  500, chunk overlap 20, and file type \<open>pdf\<close> when documents are loaded. In a manager
  without a collection name, \<open>_drop_collection\<close> raises \<open>KeyError\<close>, and
  \<open>insert_documents\<close> raises it for a path that loads, after the load.
\<close>

theorem init_outcomes:
  "case config_files w path of
     NoSuchFile \<Rightarrow> init w d path = (Raise (FileNotFoundError path), None)
   | InvalidJSON e \<Rightarrow> init w d path = (Raise (ValueError e), None)
   | JSON c \<Rightarrow>
       if get_or (chunk_overlap c) 20 > get_or (chunk_size c) 500
       then \<exists>m. init w d path = (Raise (ValueError m), None)
       else if docker_host c = None
       then init w d path = (Raise (KeyError ''docker_host''), None)
       else if docker_port c = None
       then init w d path = (Raise (KeyError ''docker_port''), None)
       else \<exists>s. init w d path = (Return (), Some s) \<and>
              config s = c \<and> db s = d \<and> vector_db s = None \<and> collection s = None \<and>
              embeddings s = (case embedding_model c of None \<Rightarrow> ''all-mpnet-base-v2'' | Some m \<Rightarrow> m) \<and>
              sp_chunk_size (text_splitter s) = (case chunk_size c of None \<Rightarrow> 500 | Some k \<Rightarrow> k) \<and>
              sp_chunk_overlap (text_splitter s) = (case chunk_overlap c of None \<Rightarrow> 20 | Some k \<Rightarrow> k) \<and>
              (file_type c = None \<longrightarrow>
                 (\<forall>p. load_documents w s p =
                       load_documents w (s\<lparr>config := c\<lparr>file_type := Some ''pdf''\<rparr>\<rparr>) p)) \<and>
              (collection_name c = None \<longrightarrow>
                 fst (drop_collection s) = Raise (KeyError ''collection_name'') \<and>
                 (\<forall>p docs. load_documents w s p = Return docs \<longrightarrow>
                    insert_documents w s p =
                      (Raise (KeyError ''collection_name''), print (MsgInserting p) s)))"
proof (cases "config_files w path")
  case NoSuchFile
  then show ?thesis by (simp add: init_def load_config_def)
next
  case (InvalidJSON e)
  then show ?thesis by (simp add: init_def load_config_def)
next
  case (JSON c)
  show ?thesis
  proof (cases "get_or (chunk_overlap c) 20 > get_or (chunk_size c) 500")
    case True
    with JSON show ?thesis by (simp add: init_def load_config_def setup_components_def Let_def)
  next
    case ok: False
    show ?thesis
    proof (cases "docker_host c")
      case None
      with JSON ok show ?thesis
        by (simp add: init_def load_config_def setup_components_def Let_def connect_milvus_def)
    next
      case (Some h)
      show ?thesis
      proof (cases "docker_port c")
        case None
        with JSON ok Some show ?thesis
          by (simp add: init_def load_config_def setup_components_def Let_def connect_milvus_def)
      next
        case port: (Some pt)
        let ?s = "\<lparr>config = c, embeddings = get_or (embedding_model c) ''all-mpnet-base-v2'',
                    text_splitter = \<lparr>sp_chunk_size = get_or (chunk_size c) 500,
                                     sp_chunk_overlap = get_or (chunk_overlap c) 20\<rparr>,
                    vector_db = None, collection = None, db = d,
                    out = [MsgConnected h pt, MsgServerVersion (server_version w)]\<rparr>"
        have i: "init w d path = (Return (), Some ?s)"
          using JSON ok Some port
          by (simp add: init_def load_config_def setup_components_def Let_def connect_milvus_def print_def)
        have ft: "file_type c = None \<longrightarrow>
            (\<forall>p. load_documents w ?s p =
                  load_documents w (?s\<lparr>config := c\<lparr>file_type := Some ''pdf''\<rparr>\<rparr>) p)"
          by (simp add: load_documents_def get_or_def Let_def)
        have dr: "collection_name c = None \<longrightarrow>
            fst (drop_collection ?s) = Raise (KeyError ''collection_name'')"
          by (simp add: drop_collection_def get_collection_name_def)
        have ins: "insert_documents w ?s p =
                    (Raise (KeyError ''collection_name''), print (MsgInserting p) ?s)"
          if n: "collection_name c = None" and ld: "load_documents w ?s p = Return docs" for p docs
        proof -
          have "load_documents w (print (MsgInserting p) ?s) p = Return docs"
            using ld by (simp only: load_documents_print)
          moreover have "store_documents docs (print (MsgInserting p) ?s) =
              (Raise (KeyError ''collection_name''), print (MsgInserting p) ?s)"
            using n Some port
            by (simp add: store_documents_def get_connection_args_def get_collection_name_def
                print_def)
          ultimately show ?thesis
            by (simp add: insert_documents_def Let_def)
        qed
        have "config ?s = c \<and> db ?s = d \<and> vector_db ?s = None \<and> collection ?s = None \<and>
              embeddings ?s = (case embedding_model c of None \<Rightarrow> ''all-mpnet-base-v2'' | Some m \<Rightarrow> m) \<and>
              sp_chunk_size (text_splitter ?s) = (case chunk_size c of None \<Rightarrow> 500 | Some k \<Rightarrow> k) \<and>
              sp_chunk_overlap (text_splitter ?s) = (case chunk_overlap c of None \<Rightarrow> 20 | Some k \<Rightarrow> k)"
          by (simp add: get_or_def)
        with i ft dr ins have "\<exists>s. init w d path = (Return (), Some s) \<and>
              config s = c \<and> db s = d \<and> vector_db s = None \<and> collection s = None \<and>
              embeddings s = (case embedding_model c of None \<Rightarrow> ''all-mpnet-base-v2'' | Some m \<Rightarrow> m) \<and>
              sp_chunk_size (text_splitter s) = (case chunk_size c of None \<Rightarrow> 500 | Some k \<Rightarrow> k) \<and>
              sp_chunk_overlap (text_splitter s) = (case chunk_overlap c of None \<Rightarrow> 20 | Some k \<Rightarrow> k) \<and>
              (file_type c = None \<longrightarrow>
                 (\<forall>p. load_documents w s p =
                       load_documents w (s\<lparr>config := c\<lparr>file_type := Some ''pdf''\<rparr>\<rparr>) p)) \<and>
              (collection_name c = None \<longrightarrow>
                 fst (drop_collection s) = Raise (KeyError ''collection_name'') \<and>
                 (\<forall>p docs. load_documents w s p = Return docs \<longrightarrow>
                    insert_documents w s p =
                      (Raise (KeyError ''collection_name''), print (MsgInserting p) s)))"
          by (intro exI[of _ ?s]) blast
        with JSON ok Some port show ?thesis by simp
      qed
    qed
  qed
qed

theorem init_outcomes_witness:
  "init demo_world empty_db ''absent.json'' = (Raise (FileNotFoundError ''absent.json''), None) \<and>
   init demo_world empty_db ''broken.json'' = (Raise (ValueError ''Expecting value''), None) \<and>
   (\<exists>s. init demo_world empty_db ''config.json'' = (Return (), Some s) \<and>
        embeddings s = ''all-mpnet-base-v2'' \<and>
        sp_chunk_size (text_splitter s) = 500 \<and> sp_chunk_overlap (text_splitter s) = 20 \<and>
        load_documents demo_world s ''a.pdf'' =
          load_documents demo_world (s\<lparr>config := demo_config\<lparr>file_type := Some ''pdf''\<rparr>\<rparr>) ''a.pdf'') \<and>
   (\<exists>s. init demo_world empty_db ''nameless.json'' = (Return (), Some s) \<and>
        fst (drop_collection s) = Raise (KeyError ''collection_name''))"
proof -
  have f: "config_files demo_world ''absent.json'' = NoSuchFile"
    "config_files demo_world ''broken.json'' = InvalidJSON ''Expecting value''"
    "config_files demo_world ''config.json'' = JSON demo_config"
    "config_files demo_world ''nameless.json'' = JSON (demo_config\<lparr>collection_name := None\<rparr>)"
    by (simp_all add: demo_world_def)
  have g: "(get_or (chunk_overlap demo_config) 20 > get_or (chunk_size demo_config) 500) = False"
    "(docker_host demo_config = None) = False" "(docker_port demo_config = None) = False"
    "(get_or (chunk_overlap (demo_config\<lparr>collection_name := None\<rparr>)) 20 >
       get_or (chunk_size (demo_config\<lparr>collection_name := None\<rparr>)) 500) = False"
    "(docker_host (demo_config\<lparr>collection_name := None\<rparr>) = None) = False"
    "(docker_port (demo_config\<lparr>collection_name := None\<rparr>) = None) = False"
    by (simp_all add: demo_config_def get_or_def)
  have v: "file_type demo_config = None" "embedding_model demo_config = None"
    "chunk_size demo_config = None" "chunk_overlap demo_config = None"
    "collection_name (demo_config\<lparr>collection_name := None\<rparr>) = None"
    by (simp_all add: demo_config_def)
  note t = init_outcomes[where w = demo_world and d = empty_db]
  from t[where path = "''absent.json''"] have 1:
    "init demo_world empty_db ''absent.json'' = (Raise (FileNotFoundError ''absent.json''), None)"
    by (simp add: f)
  from t[where path = "''broken.json''"] have 2:
    "init demo_world empty_db ''broken.json'' = (Raise (ValueError ''Expecting value''), None)"
    by (simp add: f)
  from t[where path = "''config.json''"] have 3:
    "\<exists>s. init demo_world empty_db ''config.json'' = (Return (), Some s) \<and>
        embeddings s = ''all-mpnet-base-v2'' \<and>
        sp_chunk_size (text_splitter s) = 500 \<and> sp_chunk_overlap (text_splitter s) = 20 \<and>
        load_documents demo_world s ''a.pdf'' =
          load_documents demo_world (s\<lparr>config := demo_config\<lparr>file_type := Some ''pdf''\<rparr>\<rparr>) ''a.pdf''"
    unfolding f config_file.case g if_False
    unfolding v option.case simp_thms
    apply (elim exE conjE)
    apply (intro exI conjI)
        apply assumption+
    apply (erule allE)
    apply assumption
    done
  from t[where path = "''nameless.json''"] have 4:
    "\<exists>s. init demo_world empty_db ''nameless.json'' = (Return (), Some s) \<and>
        fst (drop_collection s) = Raise (KeyError ''collection_name'')"
    unfolding f config_file.case g if_False
    unfolding v option.case simp_thms
    apply (elim exE conjE)
    apply (intro exI conjI)
     apply assumption+
    done
  from 1 2 3 4 show ?thesis by (intro conjI)
qed

subsection \<open>Similarity search\<close>

lemma ensure_vector_db_ok:
  assumes "collection_name (config s) = Some n"
      and "docker_host (config s) = Some h" and "docker_port (config s) = Some pt"
      and "vector_db s = None \<or> (\<exists>vs. vector_db s = Some vs \<and> vs_collection_name vs = n)"
  shows "\<exists>vs. ensure_vector_db s = (Return vs, s\<lparr>vector_db := Some vs\<rparr>) \<and>
              vs_collection_name vs = n"
  using assms
  by (auto simp: ensure_vector_db_def get_connection_args_def get_collection_name_def Let_def)

lemma similarity_search_rows:
  assumes "vs_collection_name vs = n"
  shows "similarity_search w d vs q =
         map doc (take (default_k w)
           (sort_key (\<lambda>e. - similarity w q (page_content (doc e))) (get_or (collections d n) [])))"
  using assms by (simp add: similarity_search_def get_or_def split: option.splits)

lemma similarity_search_properties:
  assumes "vs_collection_name vs = n"
  shows "length (similarity_search w d vs q) = min (default_k w) (length (get_or (collections d n) []))"
    and "set (similarity_search w d vs q) \<subseteq> doc ` set (get_or (collections d n) [])"
    and "sorted (map (\<lambda>x. - similarity w q (page_content x)) (similarity_search w d vs q))"
proof -
  let ?rows = "get_or (collections d n) []"
  let ?f = "\<lambda>e. - similarity w q (page_content (doc e))"
  note r = similarity_search_rows[OF assms, of w d q]
  show "length (similarity_search w d vs q) = min (default_k w) (length ?rows)"
    unfolding r by (simp add: min.commute)
  have "set (take (default_k w) (sort_key ?f ?rows)) \<subseteq> set ?rows"
    using set_take_subset[of "default_k w" "sort_key ?f ?rows"] by simp
  then show "set (similarity_search w d vs q) \<subseteq> doc ` set ?rows"
    unfolding r by auto
  have "map (\<lambda>x. - similarity w q (page_content x)) (similarity_search w d vs q) =
        take (default_k w) (map ?f (sort_key ?f ?rows))"
    unfolding r by (simp add: take_map comp_def)
  moreover have "sorted (map ?f (sort_key ?f ?rows))"
    by (rule sorted_sort_key)
  ultimately show "sorted (map (\<lambda>x. - similarity w q (page_content x)) (similarity_search w d vs q))"
    by (simp add: sorted_wrt_take)
qed

text \<open>
  What the similarity search returns: with collection name, host and port configured and
  a vector store that is absent or bound to the configured collection,
  \<open>query_documents\<close> without RAG returns normally and leaves the database as it is. Its result is the list of stored
  documents (text and metadata, among it the source; no score) of the best rows by
  similarity to the query, best first, as many as the store's default count allows and
  the collection has. On an absent or empty collection the result is the empty list.
\<close>

lemma query_documents_similarity:
  assumes "collection_name (config s) = Some n"
      and "docker_host (config s) = Some h" and "docker_port (config s) = Some pt"
      and "vector_db s = None \<or> (\<exists>vs. vector_db s = Some vs \<and> vs_collection_name vs = n)"
  shows "\<exists>docs. fst (query_documents w s q False) = Return (Documents docs) \<and>
           db (snd (query_documents w s q False)) = db s \<and>
           docs = map doc (take (default_k w)
                    (sort_key (\<lambda>e. - similarity w q (page_content (doc e)))
                       (get_or (collections (db s) n) []))) \<and>
           length docs = min (default_k w) (length (get_or (collections (db s) n) [])) \<and>
           set docs \<subseteq> doc ` set (get_or (collections (db s) n) []) \<and>
           sorted (map (\<lambda>x. - similarity w q (page_content x)) docs) \<and>
           (get_or (collections (db s) n) [] = [] \<longrightarrow> docs = [])"
proof -
  from ensure_vector_db_ok[OF assms] obtain vs
    where e: "ensure_vector_db s = (Return vs, s\<lparr>vector_db := Some vs\<rparr>)"
      and v: "vs_collection_name vs = n" by blast
  let ?docs = "similarity_search w (db s) vs q"
  have q: "query_documents w s q False = (Return (Documents ?docs), s\<lparr>vector_db := Some vs\<rparr>)"
    by (simp add: query_documents_def e)
  note p = similarity_search_properties[OF v, where w = w and d = "db s" and q = q]
  have r: "?docs = map doc (take (default_k w)
                    (sort_key (\<lambda>e. - similarity w q (page_content (doc e)))
                       (get_or (collections (db s) n) [])))"
    by (rule similarity_search_rows[OF v])
  have z: "get_or (collections (db s) n) [] = [] \<longrightarrow> ?docs = []"
    using p(1) by auto
  show ?thesis
    unfolding q using p r z by (intro exI[of _ ?docs]) simp
qed

lemma query_documents_similarity_example:
  "(\<exists>docs. fst (query_documents demo_world (demo_state demo_db) ''chunk'' False) =
             Return (Documents docs) \<and> length docs = 4) \<and>
   fst (query_documents demo_world (demo_state empty_db) ''chunk'' False) = Return (Documents [])"
proof -
  have v: "vector_db (demo_state d) = None \<or>
           (\<exists>vs. vector_db (demo_state d) = Some vs \<and> vs_collection_name vs = ''docs'')" for d
    by (simp add: demo_state_facts)
  note t1 = query_documents_similarity[OF demo_state_facts(1)[of demo_db]
      demo_state_facts(2)[of demo_db] demo_state_facts(3)[of demo_db] v[of demo_db],
      where w = demo_world and q = "''chunk''"]
  note t2 = query_documents_similarity[OF demo_state_facts(1)[of empty_db]
      demo_state_facts(2)[of empty_db] demo_state_facts(3)[of empty_db] v[of empty_db],
      where w = demo_world and q = "''chunk''"]
  have a: "get_or (collections (db (demo_state demo_db)) ''docs'') [] = demo_rows"
    "get_or (collections (db (demo_state empty_db)) ''docs'') [] = []"
    by (simp_all add: demo_state_facts demo_db_facts get_or_def empty_db_def)
  have k: "default_k demo_world = 4" "length demo_rows = 5"
    by (simp_all add: demo_world_def demo_rows_def)
  from t1 have 1:
    "\<exists>docs. fst (query_documents demo_world (demo_state demo_db) ''chunk'' False) =
             Return (Documents docs) \<and> length docs = 4"
    unfolding a k by auto
  from t2 have 2:
    "fst (query_documents demo_world (demo_state empty_db) ''chunk'' False) = Return (Documents [])"
    unfolding a by auto
  from 1 2 show ?thesis by (intro conjI)
qed

text \<open>
  Claim C6 says that the similarity search returns the top K matches with K defaulting to
  10, each with text, source and score, and the empty sequence on an empty collection.
  The program departs from it in the count. \<open>_get_search_params\<close> sets the limit to 10
  and \<open>insert_documents\<close> hands these parameters to the vector store it builds, but the
  store that \<open>query_documents\<close> builds on a fresh manager gets none, and the search is
  called without a count. So the store's own default decides: with a default of four and
  five stored rows, four documents come back, not the five a limit of ten would allow.
  What comes back are the stored documents, with no score.
\<close>

theorem query_documents_limit_evaluation:
  "limit get_search_params = 10 \<and>
   vector_db (snd (insert_documents demo_world (demo_state empty_db) ''a.pdf'')) =
     Some \<lparr>vs_connection_args = \<lparr>host = ''localhost'', port = ''19530''\<rparr>,
           vs_collection_name = ''docs'', vs_search_params = Some get_search_params,
           vs_index_params = Some get_index_params\<rparr> \<and>
   default_k demo_world = 4 \<and>
   collections demo_db ''docs'' = Some demo_rows \<and> length demo_rows = 5 \<and>
   fst (query_documents demo_world (demo_state demo_db) ''chunk'' False) =
     Return (Documents [demo_doc ''three'' ''a.pdf'', demo_doc ''five!'' ''gone.pdf'',
                        demo_doc ''four'' ''b.pdf'', demo_doc ''one'' ''a.pdf'']) \<and>
   vector_db (snd (query_documents demo_world (demo_state demo_db) ''chunk'' False)) =
     Some \<lparr>vs_connection_args = \<lparr>host = ''localhost'', port = ''19530''\<rparr>,
           vs_collection_name = ''docs'', vs_search_params = None, vs_index_params = None\<rparr>"
  by code_simp

subsection \<open>Conversation history\<close>



end
